theory Spec2Isabelle
  imports Complex_Main
begin

section \<open>Data model of \<open>cheshire_cat.py\<close>\<close>

text \<open>
  Python strings are sequences of code points. A \<open>string\<close> here is a list of
  \<open>char\<close>, one \<open>char\<close> per code point, so the model covers texts whose code points
  are below 256; \<open>length\<close>, \<open>take\<close>, \<open>drop\<close> and \<open>!\<close> then count what \<open>len\<close>, slicing and
  indexing count in the source.

  An exception is a value: its class name and its \<open>str()\<close>. The type stands for
  instances of \<open>Exception\<close>, which is what the two \<open>except Exception\<close> handlers of
  \<open>__call__\<close> catch. A computation that may raise returns \<open>exn + 'a\<close>, \<open>Inl\<close> for
  the raise.
\<close>

datatype exn = Exn (exn_class: string) (exn_str: string)

type_synonym embedding = "real list"

text \<open>\<open>MAX_TEXT_INPUT = 500\<close> (line 31).\<close>

definition MAX_TEXT_INPUT :: nat where
  "MAX_TEXT_INPUT = 500"

text \<open>The dictionary received from the client: \<open>text\<close> and the optional \<open>user_id\<close>.\<close>

record message =
  msg_text :: string
  msg_user_id :: "string option"

text \<open>A langchain document and one recalled memory \<open>(document, score, distance, id)\<close>.\<close>

record document =
  page_content :: string
  doc_metadata :: "(string \<times> string) list"

record recalled =
  rec_doc :: document
  rec_score :: real
  rec_distance :: real
  rec_id :: string

text \<open>The per-tier recall configuration, the dictionaries of lines 335 to 354.\<close>

record recall_config =
  cfg_embedding :: embedding
  cfg_k :: nat
  cfg_threshold :: real
  cfg_metadata :: "(string \<times> string) list option"

text \<open>The agent's result and the structured outputs of \<open>__call__\<close>.\<close>

type_synonym step = "(string \<times> string) \<times> string"

record cat_message =
  cm_input :: string
  cm_intermediate_steps :: "step list"
  cm_output :: string

record report =
  rep_page_content :: string
  rep_metadata :: "(string \<times> string) list"
  rep_score :: real
  rep_id :: string

record why =
  why_input :: string
  why_intermediate_steps :: "step list"
  why_episodic :: "report list"
  why_declarative :: "report list"
  why_procedural :: "report list"

record chat_output =
  out_type :: string
  out_user_id :: string
  out_content :: string
  out_why :: why

record error_output =
  err_type :: string
  err_name :: string
  err_description :: string

datatype reply = Chat chat_output | Error error_output

text \<open>
  Modelled from the spec: the class \<open>WorkingMemory\<close> and its methods \<open>get_user_id\<close>
  and \<open>update_conversation_history\<close> are missing. The spec gives a working memory
  a \<open>user_id\<close> and a \<open>conversation_history\<close>, an ordered sequence of turns, each
  with a speaker role, a message text, an optional why payload and a
  timestamp, to which turns are appended. The other fields are the keys that
  \<open>cheshire_cat.py\<close> reads and writes.
\<close>

record turn =
  turn_who :: string
  turn_message :: string
  turn_why :: "why option"
  turn_when :: real

record working_memory =
  wm_user_id :: string
  user_message_json :: message
  history :: "turn list"
  recall_query :: "string option"
  episodic_memories :: "recalled list"
  declarative_memories :: "recalled list"
  procedural_memories :: "recalled list"

text \<open>The metadata stored with an episodic entry: \<open>{"source": user_id, "when": time.time()}\<close>.\<close>

record episodic_metadata =
  em_source :: string
  em_when :: real

text \<open>
  Every call that the code makes to a collaborator is logged, in order, with
  its arguments. The log belongs to the model only: it is how a theorem says
  that a collaborator was or was not invoked.
\<close>

datatype payload =
  No_payload
| Message message
| Query string
| Config recall_config
| Output chat_output

datatype event =
  Execute_hook string payload
| String_to_docs string string
| Store_documents "document list" string
| Embed_query string
| Recall_memories string recall_config
| Execute_agent
| Episodic_add_texts "string list" "episodic_metadata list"

text \<open>
  The collaborators, none of which is in the source file: the hook registry
  (\<open>mad_hatter.execute_hook\<close>, one field per hook name, each given the working
  memory through \<open>cat=session_cat\<close> and free to change it), the rabbit hole, the
  embedder, the vector collections, the agent manager and the clock. Each is a
  parameter of the model, and each may raise.
\<close>

record env =
  before_cat_reads_message :: "message \<Rightarrow> working_memory \<Rightarrow> (exn + message) \<times> working_memory"
  cat_recall_query :: "string \<Rightarrow> working_memory \<Rightarrow> (exn + string) \<times> working_memory"
  before_cat_recalls_memories :: "working_memory \<Rightarrow> (exn + unit) \<times> working_memory"
  before_cat_recalls_episodic_memories ::
    "recall_config \<Rightarrow> working_memory \<Rightarrow> (exn + recall_config) \<times> working_memory"
  before_cat_recalls_declarative_memories ::
    "recall_config \<Rightarrow> working_memory \<Rightarrow> (exn + recall_config) \<times> working_memory"
  before_cat_recalls_procedural_memories ::
    "recall_config \<Rightarrow> working_memory \<Rightarrow> (exn + recall_config) \<times> working_memory"
  after_cat_recalls_memories :: "working_memory \<Rightarrow> (exn + unit) \<times> working_memory"
  before_cat_sends_message :: "chat_output \<Rightarrow> working_memory \<Rightarrow> (exn + chat_output) \<times> working_memory"
  string_to_docs :: "string \<Rightarrow> string \<Rightarrow> exn + document list"
  store_documents :: "document list \<Rightarrow> string \<Rightarrow> exn + unit"
  embed_query :: "string \<Rightarrow> exn + embedding"
  recall_memories_from_embedding :: "string \<Rightarrow> recall_config \<Rightarrow> exn + recalled list"
  execute_agent :: "working_memory \<Rightarrow> (exn + cat_message) \<times> working_memory"
  episodic_add_texts :: "string list \<Rightarrow> episodic_metadata list \<Rightarrow> exn + unit"
  clock :: "nat \<Rightarrow> real"

text \<open>
  The state that one request threads through: the working memory, the log of
  collaborator calls, and how often the clock has been read (\<open>time.time()\<close>
  returns \<open>clock env n\<close> at its \<open>n\<close>-th reading).
\<close>

record state =
  wm :: working_memory
  calls :: "event list"
  clock_reads :: nat

definition log_call :: "event \<Rightarrow> state \<Rightarrow> state" where
  "log_call ev s = s\<lparr>calls := calls s @ [ev]\<rparr>"

definition time_time :: "env \<Rightarrow> state \<Rightarrow> real \<times> state" where
  "time_time en s = (clock en (clock_reads s), s\<lparr>clock_reads := Suc (clock_reads s)\<rparr>)"

section \<open>Oversize segmentation (lines 500 to 512)\<close>

text \<open>
  \<open>str.isspace\<close> on one character: the whitespace code points below 256 are
  9 to 13, 28 to 32, 133 and 160.
\<close>

definition isspace :: "char \<Rightarrow> bool" where
  "isspace c = (let n = (of_char c :: nat)
                in (9 \<le> n \<and> n \<le> 13) \<or> (28 \<le> n \<and> n \<le> 32) \<or> n = 133 \<or> n = 160)"

text \<open>
  The loop of lines 505 to 507, entered with \<open>char = text[index]\<close>:
  \<^verbatim>\<open>while not char.isspace() and index > 0: index -= 1; char = text[index]\<close>.
  It returns the index at which the loop stops. The loop is entered at the
  limit and only when the text is longer than the limit, so every index it
  reads is inside the text and \<open>text[index]\<close> does not raise.
\<close>

fun scan_back :: "string \<Rightarrow> nat \<Rightarrow> nat" where
  "scan_back txt 0 = 0"
| "scan_back txt (Suc i) = (if isspace (txt ! Suc i) then Suc i else scan_back txt i)"

text \<open>Lines 503 to 509: the index at which a text longer than the limit is cut.\<close>

definition split_index :: "string \<Rightarrow> nat" where
  "split_index txt =
     (let index = scan_back txt MAX_TEXT_INPUT
      in if index \<le> 0 then MAX_TEXT_INPUT else index)"

definition set_text :: "string \<Rightarrow> state \<Rightarrow> state" where
  "set_text txt s =
     s\<lparr>wm := (wm s)\<lparr>user_message_json := (user_message_json (wm s))\<lparr>msg_text := txt\<rparr>\<rparr>\<rparr>"

text \<open>
  Lines 502 to 512. The working text is cut first; then the remainder goes to
  \<open>rabbit_hole.string_to_docs\<close> with content type \<open>text/plain\<close> and the documents
  to \<open>rabbit_hole.store_documents\<close> with the empty source.
\<close>

definition segment :: "env \<Rightarrow> state \<Rightarrow> (exn + unit) \<times> state" where
  "segment en s =
     (let txt = msg_text (user_message_json (wm s))
      in if length txt > MAX_TEXT_INPUT then
           (let index = split_index txt;
                to_declarative_memory = drop index txt;
                s1 = log_call (String_to_docs to_declarative_memory ''text/plain'')
                       (set_text (take index txt) s)
            in case string_to_docs en to_declarative_memory ''text/plain'' of
                 Inl e \<Rightarrow> (Inl e, s1)
               | Inr docs \<Rightarrow>
                   (let s2 = log_call (Store_documents docs '''') s1
                    in case store_documents en docs '''' of
                         Inl e \<Rightarrow> (Inl e, s2)
                       | Inr u \<Rightarrow> (Inr (), s2)))
         else (Inr (), s))"

text \<open>
  The cut as the specification words it: the last whitespace at or before the
  limit, and the limit itself when there is none.
\<close>

fun spec_last_whitespace :: "string \<Rightarrow> nat \<Rightarrow> nat option" where
  "spec_last_whitespace txt 0 = (if isspace (txt ! 0) then Some 0 else None)"
| "spec_last_whitespace txt (Suc i) =
     (if isspace (txt ! Suc i) then Some (Suc i) else spec_last_whitespace txt i)"

definition spec_cut :: "string \<Rightarrow> nat" where
  "spec_cut txt =
     (case spec_last_whitespace txt MAX_TEXT_INPUT of Some j \<Rightarrow> j | None \<Rightarrow> MAX_TEXT_INPUT)"

section \<open>Memory recall (lines 299 to 378)\<close>

text \<open>
  \<open>mad_hatter.execute_hook(name, payload, cat=session_cat)\<close>: the call is logged,
  the hook runs on the working memory, and what it leaves there stays, also
  when it raises.
\<close>

definition run_hook ::
  "string \<Rightarrow> payload \<Rightarrow> (working_memory \<Rightarrow> (exn + 'a) \<times> working_memory) \<Rightarrow> state
     \<Rightarrow> (exn + 'a) \<times> state" where
  "run_hook name p h s =
     (let s1 = log_call (Execute_hook name p) s;
          (r, m) = h (wm s1)
      in (r, s1\<lparr>wm := m\<rparr>))"

text \<open>Modelled from the spec: \<open>WorkingMemory.get_user_id\<close> is missing; it returns the \<open>user_id\<close> of the working memory.\<close>

definition get_user_id :: "working_memory \<Rightarrow> string" where
  "get_user_id m = wm_user_id m"

text \<open>The three default configurations of lines 335 to 354, in the order of line 357.\<close>

definition default_episodic_recall_config :: "embedding \<Rightarrow> string \<Rightarrow> recall_config" where
  "default_episodic_recall_config recall_query_embedding user_id =
     \<lparr>cfg_embedding = recall_query_embedding, cfg_k = 3, cfg_threshold = 7 / 10,
      cfg_metadata = Some [(''source'', user_id)]\<rparr>"

definition default_declarative_recall_config :: "embedding \<Rightarrow> recall_config" where
  "default_declarative_recall_config recall_query_embedding =
     \<lparr>cfg_embedding = recall_query_embedding, cfg_k = 3, cfg_threshold = 7 / 10,
      cfg_metadata = None\<rparr>"

definition default_procedural_recall_config :: "embedding \<Rightarrow> recall_config" where
  "default_procedural_recall_config recall_query_embedding =
     \<lparr>cfg_embedding = recall_query_embedding, cfg_k = 3, cfg_threshold = 7 / 10,
      cfg_metadata = None\<rparr>"

text \<open>
  Modelled from the spec: \<open>memory.vectors.collections\<close> is missing; the spec fixes
  the tier order as episodic, declarative, procedural.
\<close>

definition memory_types :: "string list" where
  "memory_types = [''episodic'', ''declarative'', ''procedural'']"

text \<open>\<open>working_memory[f"{memory_type}_memories"] = memories\<close> (line 375).\<close>

definition set_memories :: "string \<Rightarrow> recalled list \<Rightarrow> state \<Rightarrow> state" where
  "set_memories memory_type memories s =
     (if memory_type = ''episodic'' then s\<lparr>wm := (wm s)\<lparr>episodic_memories := memories\<rparr>\<rparr>
      else if memory_type = ''declarative'' then s\<lparr>wm := (wm s)\<lparr>declarative_memories := memories\<rparr>\<rparr>
      else if memory_type = ''procedural'' then s\<lparr>wm := (wm s)\<lparr>procedural_memories := memories\<rparr>\<rparr>
      else s)"

text \<open>The loop of lines 368 to 375 over \<open>zip(recall_configs, memory_types)\<close>.\<close>

fun recall_tiers :: "env \<Rightarrow> (recall_config \<times> string) list \<Rightarrow> state \<Rightarrow> (exn + unit) \<times> state" where
  "recall_tiers en [] s = (Inr (), s)"
| "recall_tiers en ((config, memory_type) # rest) s =
     (let s1 = log_call (Recall_memories memory_type config) s
      in case recall_memories_from_embedding en memory_type config of
           Inl e \<Rightarrow> (Inl e, s1)
         | Inr memories \<Rightarrow> recall_tiers en rest (set_memories memory_type memories s1))"

text \<open>Lines 356 to 364: the three per-tier hooks, evaluated in list order.\<close>

definition recall_configs ::
  "env \<Rightarrow> embedding \<Rightarrow> string \<Rightarrow> state \<Rightarrow> (exn + recall_config list) \<times> state" where
  "recall_configs en recall_query_embedding user_id s =
     (let c1 = default_episodic_recall_config recall_query_embedding user_id;
          c2 = default_declarative_recall_config recall_query_embedding;
          c3 = default_procedural_recall_config recall_query_embedding
      in case run_hook ''before_cat_recalls_episodic_memories'' (Config c1)
                (before_cat_recalls_episodic_memories en c1) s of
           (Inl e, s1) \<Rightarrow> (Inl e, s1)
         | (Inr r1, s1) \<Rightarrow>
      (case run_hook ''before_cat_recalls_declarative_memories'' (Config c2)
                (before_cat_recalls_declarative_memories en c2) s1 of
           (Inl e, s2) \<Rightarrow> (Inl e, s2)
         | (Inr r2, s2) \<Rightarrow>
      (case run_hook ''before_cat_recalls_procedural_memories'' (Config c3)
                (before_cat_recalls_procedural_memories en c3) s2 of
           (Inl e, s3) \<Rightarrow> (Inl e, s3)
         | (Inr r3, s3) \<Rightarrow> (Inr [r1, r2, r3], s3))))"

text \<open>Lines 326 to 378, from the embedding of the query on.\<close>

definition recall_with_query :: "env \<Rightarrow> string \<Rightarrow> string \<Rightarrow> state \<Rightarrow> (exn + unit) \<times> state" where
  "recall_with_query en user_id q s =
     (let s1 = log_call (Embed_query q) s
      in case embed_query en q of
           Inl e \<Rightarrow> (Inl e, s1)
         | Inr recall_query_embedding \<Rightarrow>
      (let s2 = s1\<lparr>wm := (wm s1)\<lparr>recall_query := Some q\<rparr>\<rparr>
       in case run_hook ''before_cat_recalls_memories'' No_payload
                 (before_cat_recalls_memories en) s2 of
            (Inl e, s3) \<Rightarrow> (Inl e, s3)
          | (Inr u, s3) \<Rightarrow>
      (case recall_configs en recall_query_embedding user_id s3 of
            (Inl e, s4) \<Rightarrow> (Inl e, s4)
          | (Inr configs, s4) \<Rightarrow>
      (case recall_tiers en (zip configs memory_types) s4 of
            (Inl e, s5) \<Rightarrow> (Inl e, s5)
          | (Inr u, s5) \<Rightarrow>
              run_hook ''after_cat_recalls_memories'' No_payload
                (after_cat_recalls_memories en) s5))))"

text \<open>\<open>recall_relevant_memories_to_working_memory\<close> (lines 319 to 378).\<close>

definition recall_relevant_memories_to_working_memory :: "env \<Rightarrow> state \<Rightarrow> (exn + unit) \<times> state" where
  "recall_relevant_memories_to_working_memory en s =
     (let user_id = get_user_id (wm s);
          recall_query = msg_text (user_message_json (wm s))
      in case run_hook ''cat_recall_query'' (Query recall_query)
                (cat_recall_query en recall_query) s of
           (Inl e, s1) \<Rightarrow> (Inl e, s1)
         | (Inr q, s1) \<Rightarrow> recall_with_query en user_id q s1)"

section \<open>The pipeline \<open>__call__\<close> (lines 453 to 595)\<close>

text \<open>
  Python's \<open>sub in s\<close> and \<open>s.replace(old, new)\<close> on strings: \<open>replace\<close> scans from
  the left and replaces the occurrences that do not overlap; with the empty
  pattern it puts \<open>new\<close> before every character and at the end.
\<close>

fun starts_with :: "string \<Rightarrow> string \<Rightarrow> bool" where
  "starts_with [] s = True"
| "starts_with (p # ps) [] = False"
| "starts_with (p # ps) (c # cs) = (p = c \<and> starts_with ps cs)"

fun contains :: "string \<Rightarrow> string \<Rightarrow> bool" where
  "contains sub [] = (sub = [])"
| "contains sub (c # cs) = (starts_with sub (c # cs) \<or> contains sub cs)"

function replace_nonempty :: "string \<Rightarrow> string \<Rightarrow> string \<Rightarrow> string" where
  "replace_nonempty old new [] = []"
| "replace_nonempty old new (c # cs) =
     (if starts_with old (c # cs)
      then new @ replace_nonempty old new (drop (length old - 1) cs)
      else c # replace_nonempty old new cs)"
  by pat_completeness auto
termination
  by (relation "measure (\<lambda>(old, new, s). length s)") auto

definition replace :: "string \<Rightarrow> string \<Rightarrow> string \<Rightarrow> string" where
  "replace old new s =
     (if old = [] then new @ concat (map (\<lambda>c. c # new) s) else replace_nonempty old new s)"

definition parse_error_pattern :: string where
  "parse_error_pattern = ''Could not parse LLM output: `''"

definition backtick :: string where
  "backtick = ''`''"

text \<open>
  \<open>traceback.print_exc(e)\<close> (line 521). The signature of the library function is
  \<open>print_exc(limit=None, file=None, chain=True)\<close>, so the exception is passed as
  \<open>limit\<close>; the traceback module then evaluates \<open>limit >= 0\<close>, which raises
  \<open>TypeError\<close> for an exception object.
\<close>

definition print_exc :: "exn \<Rightarrow> exn + unit" where
  "print_exc limit =
     Inl (Exn ''TypeError''
            ([CHR 0x27] @ ''>='' @ [CHR 0x27] @ '' not supported between instances of ''
             @ [CHR 0x27] @ exn_class limit @ [CHR 0x27] @ '' and '' @ [CHR 0x27] @ ''int'' @ [CHR 0x27]))"

definition err_message :: string where
  "err_message =
     ''You probably changed Embedder and old vector memory is not compatible. ''
     @ ''Please delete `core/long_term_memory` folder.''"

text \<open>The handler of lines 519 to 532, run when the recall stage raised \<open>e\<close>.\<close>

definition on_recall_failure :: "exn \<Rightarrow> state \<Rightarrow> (exn + reply) \<times> state" where
  "on_recall_failure e s =
     (case print_exc e of
        Inl e' \<Rightarrow> (Inl e', s)
      | Inr u \<Rightarrow>
          (Inr (Error \<lparr>err_type = ''error'', err_name = ''VectorMemoryError'',
                       err_description = err_message\<rparr>), s))"

text \<open>
  Modelled from the spec: \<open>WorkingMemory.update_conversation_history\<close> is missing;
  it appends one turn, with its timestamp, to the conversation history.
\<close>

definition update_conversation_history ::
  "env \<Rightarrow> string \<Rightarrow> string \<Rightarrow> why option \<Rightarrow> state \<Rightarrow> state" where
  "update_conversation_history en who_v message_v why_v s =
     (let (t, s1) = time_time en s
      in s1\<lparr>wm := (wm s1)\<lparr>history := history (wm s1) @
             [\<lparr>turn_who = who_v, turn_message = message_v, turn_why = why_v, turn_when = t\<rparr>]\<rparr>\<rparr>)"

text \<open>\<open>dict(d[0]) | {"score": float(d[1]), "id": d[3]}\<close> (lines 570 to 572).\<close>

definition memory_report :: "recalled \<Rightarrow> report" where
  "memory_report d =
     \<lparr>rep_page_content = page_content (rec_doc d), rep_metadata = doc_metadata (rec_doc d),
      rep_score = rec_score d, rep_id = rec_id d\<rparr>"

text \<open>Lines 574 to 587.\<close>

definition final_output :: "string \<Rightarrow> cat_message \<Rightarrow> working_memory \<Rightarrow> chat_output" where
  "final_output user_id cm m =
     \<lparr>out_type = ''chat'', out_user_id = user_id, out_content = cm_output cm,
      out_why = \<lparr>why_input = cm_input cm,
                 why_intermediate_steps = cm_intermediate_steps cm,
                 why_episodic = map memory_report (episodic_memories m),
                 why_declarative = map memory_report (declarative_memories m),
                 why_procedural = map memory_report (procedural_memories m)\<rparr>\<rparr>"

text \<open>Lines 589 to 595: the hook on the output, the two history turns, the return.\<close>

definition send_message :: "env \<Rightarrow> string \<Rightarrow> chat_output \<Rightarrow> state \<Rightarrow> (exn + reply) \<times> state" where
  "send_message en user_message out s =
     (case run_hook ''before_cat_sends_message'' (Output out) (before_cat_sends_message en out) s of
        (Inl e, s1) \<Rightarrow> (Inl e, s1)
      | (Inr out', s1) \<Rightarrow>
          (let s2 = update_conversation_history en ''Human'' user_message None s1;
               s3 = update_conversation_history en ''AI'' (out_content out') (Some (out_why out')) s2
           in (Inr (Chat out'), s3)))"

text \<open>Lines 558 to 595, run with the agent's result or with the synthesized one.\<close>

definition store_and_reply :: "env \<Rightarrow> string \<Rightarrow> cat_message \<Rightarrow> state \<Rightarrow> (exn + reply) \<times> state" where
  "store_and_reply en user_id cm s =
     (let user_message = msg_text (user_message_json (wm s));
          (t, s1) = time_time en s;
          metadatas = [\<lparr>em_source = user_id, em_when = t\<rparr>];
          s2 = log_call (Episodic_add_texts [user_message] metadatas) s1
      in case episodic_add_texts en [user_message] metadatas of
           Inl e \<Rightarrow> (Inl e, s2)
         | Inr u \<Rightarrow> send_message en user_message (final_output user_id cm (wm s2)) s2)"

text \<open>Lines 542 to 553: the handler around the agent, run when the agent raised \<open>e\<close>.\<close>

definition unparsable_llm_output :: "string \<Rightarrow> string" where
  "unparsable_llm_output error_description =
     replace backtick [] (replace parse_error_pattern [] error_description)"

definition on_agent_failure :: "exn \<Rightarrow> state \<Rightarrow> exn + cat_message" where
  "on_agent_failure e s =
     (let error_description = exn_str e
      in if \<not> contains parse_error_pattern error_description then Inl e
         else Inr \<lparr>cm_input = msg_text (user_message_json (wm s)),
                   cm_intermediate_steps = [],
                   cm_output = unparsable_llm_output error_description\<rparr>)"

text \<open>Lines 534 to 595.\<close>

definition reply_with_agent :: "env \<Rightarrow> string \<Rightarrow> state \<Rightarrow> (exn + reply) \<times> state" where
  "reply_with_agent en user_id s =
     (let s1 = log_call Execute_agent s;
          (r, m) = execute_agent en (wm s1);
          s2 = s1\<lparr>wm := m\<rparr>
      in case r of
           Inr cm \<Rightarrow> store_and_reply en user_id cm s2
         | Inl e \<Rightarrow>
             (case on_agent_failure e s2 of
                Inl e' \<Rightarrow> (Inl e', s2)
              | Inr cm \<Rightarrow> store_and_reply en user_id cm s2))"

text \<open>Lines 515 to 595: the recall stage inside its \<open>try\<close>, then the agent.\<close>

definition recall_and_reply :: "env \<Rightarrow> string \<Rightarrow> state \<Rightarrow> (exn + reply) \<times> state" where
  "recall_and_reply en user_id s =
     (case recall_relevant_memories_to_working_memory en s of
        (Inl e, s1) \<Rightarrow> on_recall_failure e s1
      | (Inr u, s1) \<Rightarrow> reply_with_agent en user_id s1)"

text \<open>\<open>user_message_json.get('user_id', 'user')\<close> (line 478).\<close>

definition request_user_id :: "message \<Rightarrow> string" where
  "request_user_id umj = (case msg_user_id umj of None \<Rightarrow> ''user'' | Some u \<Rightarrow> u)"

text \<open>
  Lines 475 to 512: the message is stored in the working memory with its
  \<open>user_id\<close>, the hook \<open>before_cat_reads_message\<close> replaces it, and the text is
  segmented. The state holds the working memory that
  \<open>working_memory_list.get_working_memory(user_id)\<close> returns for the request
  (the registry is not part of the source file).
\<close>

definition read_message :: "env \<Rightarrow> message \<Rightarrow> state \<Rightarrow> (exn + unit) \<times> state" where
  "read_message en umj s =
     (let user_id = request_user_id umj;
          s0 = s\<lparr>wm := (wm s)\<lparr>user_message_json := umj\<lparr>msg_user_id := Some user_id\<rparr>\<rparr>\<rparr>
      in case run_hook ''before_cat_reads_message'' (Message (user_message_json (wm s0)))
                (before_cat_reads_message en (user_message_json (wm s0))) s0 of
           (Inl e, s1) \<Rightarrow> (Inl e, s1)
         | (Inr m, s1) \<Rightarrow> segment en (s1\<lparr>wm := (wm s1)\<lparr>user_message_json := m\<rparr>\<rparr>))"

text \<open>\<open>__call__\<close>: lines 475 to 512, then lines 515 to 595.\<close>

definition call :: "env \<Rightarrow> message \<Rightarrow> state \<Rightarrow> (exn + reply) \<times> state" where
  "call en umj s =
     (case read_message en umj s of
        (Inl e, s3) \<Rightarrow> (Inl e, s3)
      | (Inr u, s3) \<Rightarrow> recall_and_reply en (request_user_id umj) s3)"

text \<open>Which logged calls are readings of the embedder, and which are per-tier hook calls.\<close>

fun is_embed_query :: "event \<Rightarrow> bool" where
  "is_embed_query (Embed_query q) = True"
| "is_embed_query ev = False"

fun is_config_hook :: "event \<Rightarrow> bool" where
  "is_config_hook (Execute_hook name (Config c)) = True"
| "is_config_hook ev = False"

text \<open>
  The collaborators that are handed the working memory leave its conversation
  history as they find it. This is a condition on an environment; the code does
  not enforce it, since a hook or the agent may write any field of the working
  memory.
\<close>

definition keeps_history :: "env \<Rightarrow> bool" where
  "keeps_history en \<longleftrightarrow>
     (\<forall>p w. history (snd (before_cat_reads_message en p w)) = history w) \<and>
     (\<forall>p w. history (snd (cat_recall_query en p w)) = history w) \<and>
     (\<forall>w. history (snd (before_cat_recalls_memories en w)) = history w) \<and>
     (\<forall>p w. history (snd (before_cat_recalls_episodic_memories en p w)) = history w) \<and>
     (\<forall>p w. history (snd (before_cat_recalls_declarative_memories en p w)) = history w) \<and>
     (\<forall>p w. history (snd (before_cat_recalls_procedural_memories en p w)) = history w) \<and>
     (\<forall>w. history (snd (after_cat_recalls_memories en w)) = history w) \<and>
     (\<forall>p w. history (snd (before_cat_sends_message en p w)) = history w) \<and>
     (\<forall>w. history (snd (execute_agent en w)) = history w)"

section \<open>Tool embedding (\<open>embed_tools\<close>, lines 250 to 297)\<close>

record tool =
  tool_name :: string
  tool_description :: string
  tool_docstring :: string

text \<open>The metadata of line 271 and a point of the procedural collection.\<close>

record tool_metadata =
  tm_source :: string
  tm_when :: real
  tm_name :: string
  tm_docstring :: string

record point =
  point_id :: nat
  point_page_content :: string
  point_metadata :: tool_metadata

datatype store_call =
  Get_all_points
| Add_texts "string list" "tool_metadata list"
| Delete string "nat list"

text \<open>
  The procedural collection, the log of the calls made to the vector store,
  and the number of clock readings.
\<close>

record index_state =
  procedural :: "point list"
  store_calls :: "store_call list"
  index_clock_reads :: nat

text \<open>
  Modelled from the spec: the vector store is missing. The spec gives it
  \<open>list_all(collection)\<close>, \<open>upsert(texts, metadatas)\<close> and \<open>delete(collection, ids)\<close>.
  Here \<open>get_all_points\<close> returns every point of the collection, \<open>add_texts\<close> stores
  each text with its metadata under a point id that no stored point has, and
  \<open>delete\<close> removes the points whose id is selected. The embedding vector that
  \<open>add_texts\<close> computes for a text is not part of a point here, and the three
  operations return: a failing store is not modelled.
\<close>

definition fresh_id :: "point list \<Rightarrow> nat" where
  "fresh_id ps = Suc (fold max (map point_id ps) 0)"

fun add_points :: "(string \<times> tool_metadata) list \<Rightarrow> point list \<Rightarrow> point list" where
  "add_points [] ps = ps"
| "add_points ((t, m) # rest) ps =
     add_points rest
       (ps @ [\<lparr>point_id = fresh_id ps, point_page_content = t, point_metadata = m\<rparr>])"

definition get_all_points :: "index_state \<Rightarrow> point list \<times> index_state" where
  "get_all_points st = (procedural st, st\<lparr>store_calls := store_calls st @ [Get_all_points]\<rparr>)"

definition add_texts :: "string list \<Rightarrow> tool_metadata list \<Rightarrow> index_state \<Rightarrow> index_state" where
  "add_texts texts metadatas st =
     st\<lparr>procedural := add_points (zip texts metadatas) (procedural st),
        store_calls := store_calls st @ [Add_texts texts metadatas]\<rparr>"

definition delete :: "string \<Rightarrow> nat list \<Rightarrow> index_state \<Rightarrow> index_state" where
  "delete collection_name points_selector st =
     st\<lparr>procedural :=
          (if collection_name = ''procedural''
           then filter (\<lambda>p. point_id p \<notin> set points_selector) (procedural st)
           else procedural st),
        store_calls := store_calls st @ [Delete collection_name points_selector]\<rparr>"

text \<open>
  The loop of lines 265 to 279. The descriptions it tests against are the ones
  read before the loop; \<open>time.time()\<close> is read once for each tool that is added.
\<close>

fun embed_new_tools :: "(nat \<Rightarrow> real) \<Rightarrow> string list \<Rightarrow> tool list \<Rightarrow> index_state \<Rightarrow> index_state" where
  "embed_new_tools clk embedded_tools_descriptions [] st = st"
| "embed_new_tools clk embedded_tools_descriptions (t # ts) st =
     (if tool_description t \<notin> set embedded_tools_descriptions
      then embed_new_tools clk embedded_tools_descriptions ts
             (add_texts [tool_description t]
                [\<lparr>tm_source = ''tool'', tm_when = clk (index_clock_reads st),
                  tm_name = tool_name t, tm_docstring = tool_docstring t\<rparr>]
                (st\<lparr>index_clock_reads := Suc (index_clock_reads st)\<rparr>))
      else embed_new_tools clk embedded_tools_descriptions ts st)"

text \<open>The loop of lines 285 to 290.\<close>

definition points_to_be_deleted :: "nat list \<Rightarrow> string list \<Rightarrow> string list \<Rightarrow> nat list" where
  "points_to_be_deleted embedded_tools_ids embedded_tools_descriptions mad_hatter_tools_descriptions =
     map fst (filter (\<lambda>(i, descr). descr \<notin> set mad_hatter_tools_descriptions)
                (zip embedded_tools_ids embedded_tools_descriptions))"

text \<open>
  \<open>embed_tools\<close>. The first loop (\<open>augment_tool\<close>, line 253) hands the tools a
  reference to the cat and touches nothing that is modelled.
\<close>

definition embed_tools :: "(nat \<Rightarrow> real) \<Rightarrow> tool list \<Rightarrow> index_state \<Rightarrow> index_state" where
  "embed_tools clk tools st =
     (let (embedded_tools, st1) = get_all_points st;
          embedded_tools_ids = map point_id embedded_tools;
          embedded_tools_descriptions = map point_page_content embedded_tools;
          st2 = embed_new_tools clk embedded_tools_descriptions tools st1;
          mad_hatter_tools_descriptions = map tool_description tools;
          to_delete = points_to_be_deleted embedded_tools_ids embedded_tools_descriptions
                        mad_hatter_tools_descriptions
      in if length to_delete > 0 then delete ''procedural'' to_delete st2 else st2)"

section \<open>Concrete environments and inputs\<close>

text \<open>
  An environment in which every hook returns its payload, no collaborator
  raises and the agent answers; and states holding a given message text.
\<close>

definition env_quiet :: env where
  "env_quiet =
     \<lparr>before_cat_reads_message = (\<lambda>m w. (Inr m, w)),
      cat_recall_query = (\<lambda>q w. (Inr q, w)),
      before_cat_recalls_memories = (\<lambda>w. (Inr (), w)),
      before_cat_recalls_episodic_memories = (\<lambda>c w. (Inr c, w)),
      before_cat_recalls_declarative_memories = (\<lambda>c w. (Inr c, w)),
      before_cat_recalls_procedural_memories = (\<lambda>c w. (Inr c, w)),
      after_cat_recalls_memories = (\<lambda>w. (Inr (), w)),
      before_cat_sends_message = (\<lambda>out w. (Inr out, w)),
      string_to_docs = (\<lambda>t c. Inr [\<lparr>page_content = t, doc_metadata = []\<rparr>]),
      store_documents = (\<lambda>docs src. Inr ()),
      embed_query = (\<lambda>q. Inr [1, 0]),
      recall_memories_from_embedding = (\<lambda>t c. Inr []),
      execute_agent = (\<lambda>w. (Inr \<lparr>cm_input = msg_text (user_message_json w),
                                    cm_intermediate_steps = [], cm_output = ''meow''\<rparr>, w)),
      episodic_add_texts = (\<lambda>ts ms. Inr ()),
      clock = (\<lambda>n. real n)\<rparr>"

definition wm_with_text :: "string \<Rightarrow> working_memory" where
  "wm_with_text t =
     \<lparr>wm_user_id = ''alice'', user_message_json = \<lparr>msg_text = t, msg_user_id = Some ''alice''\<rparr>,
      history = [], recall_query = None, episodic_memories = [], declarative_memories = [],
      procedural_memories = []\<rparr>"

definition state_with_text :: "string \<Rightarrow> state" where
  "state_with_text t = \<lparr>wm = wm_with_text t, calls = [], clock_reads = 0\<rparr>"

text \<open>A text of 501 characters whose only whitespace is its first character.\<close>

definition text_space_first :: string where
  "text_space_first = CHR '' '' # replicate 500 CHR ''a''"

text \<open>A text of 650 characters with one space, at index 480.\<close>

definition text_650 :: string where
  "text_650 = replicate 480 CHR ''a'' @ CHR '' '' # replicate 169 CHR ''b''"

definition message_of :: "string \<Rightarrow> message" where
  "message_of t = \<lparr>msg_text = t, msg_user_id = Some ''alice''\<rparr>"

text \<open>Environments in which one collaborator raises.\<close>

definition env_recall_raises :: env where
  "env_recall_raises =
     env_quiet\<lparr>recall_memories_from_embedding :=
                 (\<lambda>t c. Inl (Exn ''ValueError'' ''Vector dimension error''))\<rparr>"

definition env_agent_raises :: "string \<Rightarrow> env" where
  "env_agent_raises error_description =
     env_quiet\<lparr>execute_agent := (\<lambda>w. (Inl (Exn ''OutputParserException'' error_description), w))\<rparr>"

definition env_query_hook_raises :: env where
  "env_query_hook_raises =
     env_quiet\<lparr>cat_recall_query := (\<lambda>q w. (Inl (Exn ''ValueError'' ''boom''), w))\<rparr>"

definition env_read_hook_raises :: env where
  "env_read_hook_raises =
     env_quiet\<lparr>before_cat_reads_message := (\<lambda>m w. (Inl (Exn ''KeyError'' ''prompt''), w))\<rparr>"

definition env_send_hook_raises :: env where
  "env_send_hook_raises =
     env_quiet\<lparr>before_cat_sends_message := (\<lambda>out w. (Inl (Exn ''RuntimeError'' ''no reply''), w))\<rparr>"

text \<open>
  A procedural collection holding records for the descriptions \<open>A\<close>, \<open>B\<close>, \<open>C\<close>,
  and the live tools with the descriptions \<open>A\<close>, \<open>C\<close>, \<open>D\<close>.
\<close>

definition point_of :: "nat \<Rightarrow> string \<Rightarrow> point" where
  "point_of i d =
     \<lparr>point_id = i, point_page_content = d,
      point_metadata = \<lparr>tm_source = ''tool'', tm_when = 0, tm_name = d, tm_docstring = ''''\<rparr>\<rparr>"

definition tool_of :: "string \<Rightarrow> tool" where
  "tool_of d = \<lparr>tool_name = d, tool_description = d, tool_docstring = ''''\<rparr>"

definition index_abc :: index_state where
  "index_abc =
     \<lparr>procedural = [point_of 1 ''A'', point_of 2 ''B'', point_of 3 ''C''],
      store_calls = [], index_clock_reads = 0\<rparr>"

definition tools_acd :: "tool list" where
  "tools_acd = [tool_of ''A'', tool_of ''C'', tool_of ''D'']"

section \<open>Unfolding the model\<close>

lemmas pipeline_defs =
  call_def read_message_def request_user_id_def run_hook_def log_call_def segment_def
  recall_and_reply_def recall_relevant_memories_to_working_memory_def recall_with_query_def
  recall_configs_def get_user_id_def memory_types_def set_memories_def
  default_episodic_recall_config_def default_declarative_recall_config_def
  default_procedural_recall_config_def on_recall_failure_def print_exc_def
  reply_with_agent_def on_agent_failure_def store_and_reply_def send_message_def
  update_conversation_history_def time_time_def final_output_def memory_report_def
  MAX_TEXT_INPUT_def Let_def

lemmas input_defs =
  env_quiet_def wm_with_text_def state_with_text_def message_of_def
  env_recall_raises_def env_agent_raises_def env_query_hook_raises_def
  env_read_hook_raises_def env_send_hook_raises_def

lemmas string_defs = unparsable_llm_output_def replace_def backtick_def parse_error_pattern_def

lemma call_after_read_message:
  "read_message en umj s = (Inr (), s3)
     \<Longrightarrow> call en umj s = recall_and_reply en (request_user_id umj) s3"
  by (simp add: call_def)

lemma call_after_recall:
  "read_message en umj s = (Inr (), s3)
     \<Longrightarrow> recall_relevant_memories_to_working_memory en s3 = (Inr (), s4)
     \<Longrightarrow> call en umj s = reply_with_agent en (request_user_id umj) s4"
  by (simp add: call_def recall_and_reply_def)

lemma store_and_reply_returns:
  assumes "store_and_reply en uid cm s = (Inr rep, s')"
  shows "\<exists>out'. fst (before_cat_sends_message en (final_output uid cm (wm s)) (wm s)) = Inr out'
               \<and> rep = Chat out'"
  using assms
  by (auto simp: store_and_reply_def send_message_def run_hook_def time_time_def Let_def
        log_call_def split: sum.splits prod.splits)

lemma store_and_reply_output:
  assumes "store_and_reply en uid cm s = (Inr (Chat out), s')"
    and "\<forall>p w. fst (before_cat_sends_message en p w) = Inr p"
  shows "out_content out = cm_output cm \<and> why_input (out_why out) = cm_input cm
         \<and> why_intermediate_steps (out_why out) = cm_intermediate_steps cm"
proof -
  from store_and_reply_returns [OF assms(1)] assms(2)
  have "out = final_output uid cm (wm s)" by auto
  then show ?thesis by (simp add: final_output_def)
qed

section \<open>Strings: containment and replacement\<close>

lemma starts_with_append: "starts_with p (p @ s)"
  by (induction p) auto

lemma replace_nonempty_prefix:
  assumes "p \<noteq> []"
  shows "replace_nonempty p new (p @ s) = new @ replace_nonempty p new s"
proof -
  from assms obtain c cs where p: "p = c # cs" by (cases p) auto
  have "replace_nonempty p new (c # (cs @ s))
        = new @ replace_nonempty p new (drop (length p - 1) (cs @ s))"
    using starts_with_append [of p s] by (simp add: p)
  then show ?thesis by (simp add: p)
qed

lemma replace_nonempty_absent: "\<not> contains p s \<Longrightarrow> replace_nonempty p new s = s"
  by (induction s) auto

lemma replace_nonempty_char: "replace_nonempty [c] [] s = removeAll c s"
  by (induction s) auto

lemma unparsable_llm_output_removeAll:
  "unparsable_llm_output msg = removeAll CHR ''`'' (replace parse_error_pattern [] msg)"
  by (simp add: string_defs replace_nonempty_char)

lemma unparsable_llm_output_raw:
  assumes "\<not> contains parse_error_pattern (raw @ ''`'')"
  shows "unparsable_llm_output (parse_error_pattern @ raw @ ''`'') = removeAll CHR ''`'' raw"
proof -
  have ne: "parse_error_pattern \<noteq> []" by (simp add: parse_error_pattern_def)
  have "replace parse_error_pattern [] (parse_error_pattern @ raw @ ''`'') = raw @ ''`''"
    using replace_nonempty_prefix [OF ne, of "[]" "raw @ ''`''"]
      replace_nonempty_absent [OF assms] ne
    by (simp add: replace_def)
  then show ?thesis by (simp add: unparsable_llm_output_removeAll)
qed

section \<open>Segmentation: where the text is cut\<close>

lemma isspace_simps: "isspace CHR '' ''" "\<not> isspace CHR ''a''" "\<not> isspace CHR ''b''"
  by (simp_all add: isspace_def)

lemma scan_back_le: "scan_back txt n \<le> n"
  by (induction n) auto

lemma scan_back_no_space_above: "scan_back txt n < j \<Longrightarrow> j \<le> n \<Longrightarrow> \<not> isspace (txt ! j)"
proof (induction n)
  case 0
  then show ?case by simp
next
  case (Suc n)
  show ?case
  proof (cases "isspace (txt ! Suc n)")
    case True
    with Suc.prems show ?thesis by simp
  next
    case False
    show ?thesis
    proof (cases "j = Suc n")
      case True
      with False show ?thesis by simp
    next
      case neq: False
      with Suc.prems \<open>\<not> isspace (txt ! Suc n)\<close> have "scan_back txt n < j" "j \<le> n" by simp_all
      then show ?thesis by (rule Suc.IH)
    qed
  qed
qed

lemma scan_back_space: "0 < scan_back txt n \<Longrightarrow> isspace (txt ! scan_back txt n)"
  by (induction n) auto

lemma scan_back_none:
  "(\<And>j. 0 < j \<Longrightarrow> j \<le> n \<Longrightarrow> \<not> isspace (txt ! j)) \<Longrightarrow> scan_back txt n = 0"
  by (induction n) auto

lemma spec_last_whitespace_first:
  "(\<And>j. 0 < j \<Longrightarrow> j \<le> n \<Longrightarrow> \<not> isspace (txt ! j)) \<Longrightarrow> isspace (txt ! 0)
     \<Longrightarrow> spec_last_whitespace txt n = Some 0"
  by (induction n) auto

text \<open>
  The loop reads \<open>text[index]\<close> only at indices up to the limit, which are inside
  a text longer than the limit; the cut index is between 1 and the limit.
\<close>

lemma split_index_props:
  "1 \<le> split_index txt \<and> split_index txt \<le> MAX_TEXT_INPUT
   \<and> (\<forall>j. split_index txt < j \<and> j \<le> MAX_TEXT_INPUT \<longrightarrow> \<not> isspace (txt ! j))
   \<and> (isspace (txt ! split_index txt)
       \<or> (split_index txt = MAX_TEXT_INPUT
           \<and> (\<forall>j. 1 \<le> j \<and> j \<le> MAX_TEXT_INPUT \<longrightarrow> \<not> isspace (txt ! j))))"
proof (cases "scan_back txt MAX_TEXT_INPUT = 0")
  case True
  then have "\<forall>j. 1 \<le> j \<and> j \<le> MAX_TEXT_INPUT \<longrightarrow> \<not> isspace (txt ! j)"
    using scan_back_no_space_above [of _ MAX_TEXT_INPUT] by auto
  with True show ?thesis by (simp add: split_index_def MAX_TEXT_INPUT_def)
next
  case False
  then have "split_index txt = scan_back txt MAX_TEXT_INPUT" by (simp add: split_index_def)
  with False show ?thesis
    using scan_back_le [of _ MAX_TEXT_INPUT] scan_back_space [of _ MAX_TEXT_INPUT]
      scan_back_no_space_above [of _ MAX_TEXT_INPUT]
    by auto
qed

lemma text_650_nth:
  "text_650 ! j = (if j < 480 then CHR ''a'' else if j = 480 then CHR '' ''
                   else (replicate 169 CHR ''b'') ! (j - 481))"
  by (simp add: text_650_def nth_append nth_Cons')

lemma scan_back_eq:
  "isspace (txt ! i) \<Longrightarrow> 0 < i \<Longrightarrow> i \<le> n \<Longrightarrow> (\<And>j. i < j \<Longrightarrow> j \<le> n \<Longrightarrow> \<not> isspace (txt ! j))
     \<Longrightarrow> scan_back txt n = i"
proof (induction n)
  case 0
  then show ?case by simp
next
  case (Suc n)
  show ?case
  proof (cases "i = Suc n")
    case True
    with Suc.prems show ?thesis by simp
  next
    case False
    with Suc.prems have "i \<le> n" by simp
    moreover from False Suc.prems have "\<not> isspace (txt ! Suc n)" by simp
    ultimately show ?thesis using Suc by simp
  qed
qed

lemma split_index_text_650: "split_index text_650 = 480"
proof -
  have "scan_back text_650 500 = 480"
    by (rule scan_back_eq) (simp_all add: text_650_nth isspace_simps)
  then show ?thesis by (simp add: split_index_def MAX_TEXT_INPUT_def)
qed

lemma text_650_parts:
  "length text_650 = 650" "take 480 text_650 = replicate 480 CHR ''a''"
  "drop 480 text_650 = CHR '' '' # replicate 169 CHR ''b''"
  by (simp_all add: text_650_def)

lemma segment_text_650:
  "msg_text (user_message_json (wm s)) = text_650 \<Longrightarrow>
   segment env_quiet s =
     (Inr (), (set_text (replicate 480 CHR ''a'') s)\<lparr>calls := calls s @
        [String_to_docs (CHR '' '' # replicate 169 CHR ''b'') ''text/plain'',
         Store_documents [\<lparr>page_content = CHR '' '' # replicate 169 CHR ''b'', doc_metadata = []\<rparr>] '''']\<rparr>)"
  by (simp add: segment_def split_index_text_650 text_650_parts MAX_TEXT_INPUT_def Let_def
        log_call_def set_text_def env_quiet_def)

text \<open>
  C1, as stated, fails: the claim cuts at the last whitespace at or before
  index 500 whenever the first 500 characters hold one. In
  \<open>text_space_first\<close> the only whitespace is at index 0, so the claim's cut is at
  index 0; the loop stops there with \<open>index = 0\<close>, line 508 resets the index,
  and the text is cut at index 500.
\<close>

theorem segment_cut_counterexample:
  "length text_space_first > MAX_TEXT_INPUT \<and> isspace (text_space_first ! 0)
   \<and> spec_cut text_space_first = 0 \<and> split_index text_space_first = 500"
proof -
  have a: "\<And>j. 0 < j \<Longrightarrow> j \<le> 500 \<Longrightarrow> \<not> isspace (text_space_first ! j)"
    by (simp add: text_space_first_def nth_Cons' isspace_simps)
  have b: "isspace (text_space_first ! 0)"
    by (simp add: text_space_first_def isspace_simps)
  have "scan_back text_space_first 500 = 0"
    using a by (rule scan_back_none)
  moreover have "spec_last_whitespace text_space_first 500 = Some 0"
    using a b by (rule spec_last_whitespace_first)
  ultimately show ?thesis
    using b by (simp add: split_index_def spec_cut_def MAX_TEXT_INPUT_def text_space_first_def)
qed

text \<open>
  C1, amended: a text of at most 500 characters is left as it is and nothing
  goes to ingestion. A text of more than 500 characters is cut at the last
  whitespace whose index is from 1 to 500, and at index 500 when no index from
  1 to 500 holds whitespace (whitespace at index 0 does not count); the working
  text becomes the prefix before the cut, and the remainder from the cut on is
  passed to \<open>string_to_docs\<close> as \<open>text/plain\<close> and, when that returns, its documents
  to \<open>store_documents\<close> with the empty source.
\<close>

theorem segment_cuts_long_text:
  assumes "segment en s = (r, s')" and "txt = msg_text (user_message_json (wm s))"
  shows "(length txt \<le> MAX_TEXT_INPUT \<longrightarrow> r = Inr () \<and> s' = s) \<and>
         (length txt > MAX_TEXT_INPUT \<longrightarrow>
            1 \<le> split_index txt \<and> split_index txt \<le> MAX_TEXT_INPUT
            \<and> (\<forall>j. split_index txt < j \<and> j \<le> MAX_TEXT_INPUT \<longrightarrow> \<not> isspace (txt ! j))
            \<and> (isspace (txt ! split_index txt)
                \<or> (split_index txt = MAX_TEXT_INPUT
                    \<and> (\<forall>j. 1 \<le> j \<and> j \<le> MAX_TEXT_INPUT \<longrightarrow> \<not> isspace (txt ! j))))
            \<and> msg_text (user_message_json (wm s')) = take (split_index txt) txt
            \<and> calls s' = calls s @ String_to_docs (drop (split_index txt) txt) ''text/plain''
                 # (case string_to_docs en (drop (split_index txt) txt) ''text/plain'' of
                      Inl e \<Rightarrow> [] | Inr docs \<Rightarrow> [Store_documents docs '''']))"
proof (intro conjI impI)
  assume "length txt \<le> MAX_TEXT_INPUT"
  with assms show "r = Inr ()" "s' = s" by (simp_all add: segment_def)
next
  assume long: "length txt > MAX_TEXT_INPUT"
  note p = split_index_props [of "txt"]
  from p show "1 \<le> split_index txt" by blast
  from p show "split_index txt \<le> MAX_TEXT_INPUT" by blast
  from p show "\<forall>j. split_index txt < j \<and> j \<le> MAX_TEXT_INPUT \<longrightarrow> \<not> isspace (txt ! j)" by blast
  from p show "isspace (txt ! split_index txt)
                \<or> (split_index txt = MAX_TEXT_INPUT
                    \<and> (\<forall>j. 1 \<le> j \<and> j \<le> MAX_TEXT_INPUT \<longrightarrow> \<not> isspace (txt ! j)))" by blast
  from assms long show "msg_text (user_message_json (wm s')) = take (split_index txt) txt"
    by (auto simp: segment_def Let_def log_call_def set_text_def split: sum.splits)
  from assms long show "calls s' = calls s @ String_to_docs (drop (split_index txt) txt) ''text/plain''
                 # (case string_to_docs en (drop (split_index txt) txt) ''text/plain'' of
                      Inl e \<Rightarrow> [] | Inr docs \<Rightarrow> [Store_documents docs ''''])"
    by (auto simp: segment_def Let_def log_call_def set_text_def split: sum.splits)
qed

text \<open>
  The theorem at the text of 650 characters with a space at index 480: the
  first 480 characters are kept, the rest goes to ingestion.
\<close>

theorem segment_cuts_long_text_witness:
  "length text_650 > MAX_TEXT_INPUT
   \<and> msg_text (user_message_json (wm (snd (segment env_quiet (state_with_text text_650)))))
       = replicate 480 CHR ''a''
   \<and> calls (snd (segment env_quiet (state_with_text text_650)))
       = [String_to_docs (CHR '' '' # replicate 169 CHR ''b'') ''text/plain'',
          Store_documents [\<lparr>page_content = CHR '' '' # replicate 169 CHR ''b'', doc_metadata = []\<rparr>] '''']"
proof -
  have long: "length text_650 > MAX_TEXT_INPUT"
    by (simp add: text_650_def MAX_TEXT_INPUT_def)
  have t: "text_650 = msg_text (user_message_json (wm (state_with_text text_650)))"
    by (simp add: state_with_text_def wm_with_text_def)
  obtain r s' where seg: "segment env_quiet (state_with_text text_650) = (r, s')"
    by (cases "segment env_quiet (state_with_text text_650)")
  note th = segment_cuts_long_text [OF seg t]
  define i where "i = split_index text_650"
  from th long have le: "i \<le> 500" and
    above: "\<forall>j. i < j \<and> j \<le> 500 \<longrightarrow> \<not> isspace (text_650 ! j)" and
    at: "isspace (text_650 ! i)
         \<or> (i = 500 \<and> (\<forall>j. 1 \<le> j \<and> j \<le> 500 \<longrightarrow> \<not> isspace (text_650 ! j)))"
    unfolding i_def MAX_TEXT_INPUT_def by blast+
  have sp: "isspace (text_650 ! 480)"
    by (simp add: text_650_nth isspace_simps)
  have ge: "480 \<le> i"
  proof (rule ccontr)
    assume "\<not> 480 \<le> i"
    then have "i < 480 \<and> (480::nat) \<le> 500" by simp
    with above have "\<not> isspace (text_650 ! 480)" by blast
    with sp show False by simp
  qed
  from at sp have "isspace (text_650 ! i)" by auto
  with ge le have "i = 480"
    by (auto simp: text_650_nth isspace_simps split: if_splits)
  with th long seg show ?thesis
    unfolding i_def
    by (simp add: text_650_def state_with_text_def wm_with_text_def env_quiet_def)
qed

section \<open>The agent and its parse failures\<close>

text \<open>
  C3, as stated, fails: the claim makes the output the raw unparsed model text.
  For the failure message \<open>Could not parse LLM output: `a`b`\<close> the raw text is
  \<open>a`b\<close>, and the reply carries \<open>ab\<close>: line 548 removes every backtick.
\<close>

theorem agent_fallback_output_counterexample:
  "contains parse_error_pattern (parse_error_pattern @ ''a`b'' @ ''`'')
   \<and> fst (call (env_agent_raises (parse_error_pattern @ ''a`b'' @ ''`''))
             (message_of ''hello'') (state_with_text ''''))
       = Inr (Chat \<lparr>out_type = ''chat'', out_user_id = ''alice'', out_content = ''ab'',
                    out_why = \<lparr>why_input = ''hello'', why_intermediate_steps = [],
                               why_episodic = [], why_declarative = [], why_procedural = []\<rparr>\<rparr>)
   \<and> ''ab'' \<noteq> ''a`b''"
  by (simp add: pipeline_defs input_defs string_defs)

text \<open>
  C3, amended: when the agent raises and the message of the failure does not
  contain the pattern \<open>Could not parse LLM output: `\<close>, the failure is raised to
  the caller. When the message contains the pattern, the pipeline goes on as
  after a successful agent run, with a result whose input is the working
  message text, whose intermediate steps are empty and whose output is the
  failure message with every occurrence of the pattern and every backtick
  removed; if the hook on the output returns what it is given, the reply
  carries that output. The output is the raw model text when the message is the
  pattern, the raw text and a closing backtick, the raw text holds no backtick,
  and the pattern does not occur in the raw text followed by the closing
  backtick.
\<close>

theorem agent_parse_failure_fallback:
  assumes "read_message en umj s = (Inr (), s3)"
    and "recall_relevant_memories_to_working_memory en s3 = (Inr (), s4)"
    and "execute_agent en (wm s4) = (Inl e, m)"
  shows "(\<not> contains parse_error_pattern (exn_str e) \<longrightarrow> fst (call en umj s) = Inl e) \<and>
         (contains parse_error_pattern (exn_str e) \<longrightarrow>
            call en umj s
              = store_and_reply en (request_user_id umj)
                  \<lparr>cm_input = msg_text (user_message_json m), cm_intermediate_steps = [],
                   cm_output = removeAll CHR ''`'' (replace parse_error_pattern [] (exn_str e))\<rparr>
                  ((log_call Execute_agent s4)\<lparr>wm := m\<rparr>)
            \<and> (\<forall>out s'. call en umj s = (Inr (Chat out), s')
                   \<and> (\<forall>p w. fst (before_cat_sends_message en p w) = Inr p)
                 \<longrightarrow> out_content out
                       = removeAll CHR ''`'' (replace parse_error_pattern [] (exn_str e))
                     \<and> why_input (out_why out) = msg_text (user_message_json m)
                     \<and> why_intermediate_steps (out_why out) = [])
            \<and> (\<forall>raw. exn_str e = parse_error_pattern @ raw @ ''`''
                   \<and> \<not> contains parse_error_pattern (raw @ ''`'') \<and> CHR ''`'' \<notin> set raw
                 \<longrightarrow> removeAll CHR ''`'' (replace parse_error_pattern [] (exn_str e)) = raw))"
proof (intro conjI impI)
  assume "\<not> contains parse_error_pattern (exn_str e)"
  with assms(3) show "fst (call en umj s) = Inl e"
    by (simp add: call_after_recall [OF assms(1,2)] reply_with_agent_def on_agent_failure_def
          log_call_def)
next
  assume c: "contains parse_error_pattern (exn_str e)"
  with assms(3) show eq: "call en umj s
              = store_and_reply en (request_user_id umj)
                  \<lparr>cm_input = msg_text (user_message_json m), cm_intermediate_steps = [],
                   cm_output = removeAll CHR ''`'' (replace parse_error_pattern [] (exn_str e))\<rparr>
                  ((log_call Execute_agent s4)\<lparr>wm := m\<rparr>)"
    by (simp add: call_after_recall [OF assms(1,2)] reply_with_agent_def on_agent_failure_def
          log_call_def unparsable_llm_output_removeAll)
  show "\<forall>out s'. call en umj s = (Inr (Chat out), s')
                   \<and> (\<forall>p w. fst (before_cat_sends_message en p w) = Inr p)
                 \<longrightarrow> out_content out
                       = removeAll CHR ''`'' (replace parse_error_pattern [] (exn_str e))
                     \<and> why_input (out_why out) = msg_text (user_message_json m)
                     \<and> why_intermediate_steps (out_why out) = []"
    unfolding eq using store_and_reply_output by fastforce
  show "\<forall>raw. exn_str e = parse_error_pattern @ raw @ ''`''
                   \<and> \<not> contains parse_error_pattern (raw @ ''`'') \<and> CHR ''`'' \<notin> set raw
                 \<longrightarrow> removeAll CHR ''`'' (replace parse_error_pattern [] (exn_str e)) = raw"
  proof (intro allI impI)
    fix raw
    assume a: "exn_str e = parse_error_pattern @ raw @ ''`''
                   \<and> \<not> contains parse_error_pattern (raw @ ''`'') \<and> CHR ''`'' \<notin> set raw"
    then have "unparsable_llm_output (parse_error_pattern @ raw @ ''`'') = removeAll CHR ''`'' raw"
      using unparsable_llm_output_raw [of raw] by simp
    moreover from a have "removeAll CHR ''`'' raw = raw" by simp
    ultimately show "removeAll CHR ''`'' (replace parse_error_pattern [] (exn_str e)) = raw"
      using a by (simp add: unparsable_llm_output_removeAll)
  qed
qed

text \<open>
  The theorem at the failure message \<open>Could not parse LLM output: `hello world`\<close>:
  the reply carries \<open>hello world\<close> and no intermediate steps.
\<close>

theorem agent_parse_failure_fallback_witness:
  "contains parse_error_pattern ''Could not parse LLM output: `hello world`''
   \<and> fst (call (env_agent_raises ''Could not parse LLM output: `hello world`'')
             (message_of ''hello'') (state_with_text ''''))
       = Inr (Chat \<lparr>out_type = ''chat'', out_user_id = ''alice'', out_content = ''hello world'',
                    out_why = \<lparr>why_input = ''hello'', why_intermediate_steps = [],
                               why_episodic = [], why_declarative = [], why_procedural = []\<rparr>\<rparr>)"
proof -
  let ?en = "env_agent_raises ''Could not parse LLM output: `hello world`''"
  let ?e = "Exn ''OutputParserException'' ''Could not parse LLM output: `hello world`''"
  define s3 where "s3 = snd (read_message ?en (message_of ''hello'') (state_with_text ''''))"
  define s4 where "s4 = snd (recall_relevant_memories_to_working_memory ?en s3)"
  have h1: "read_message ?en (message_of ''hello'') (state_with_text '''') = (Inr (), s3)"
    unfolding s3_def by (simp add: pipeline_defs input_defs)
  have h2: "recall_relevant_memories_to_working_memory ?en s3 = (Inr (), s4)"
    unfolding s4_def s3_def by (simp add: pipeline_defs input_defs)
  have h3: "execute_agent ?en (wm s4) = (Inl ?e, wm s4)"
    by (simp add: input_defs)
  have c: "contains parse_error_pattern (exn_str ?e)"
    by (simp add: parse_error_pattern_def)
  have w: "wm s4 = (wm_with_text ''hello'')\<lparr>recall_query := Some ''hello''\<rparr>"
    unfolding s4_def s3_def by (simp add: pipeline_defs input_defs)
  have "call ?en (message_of ''hello'') (state_with_text '''')
          = store_and_reply ?en (request_user_id (message_of ''hello''))
              \<lparr>cm_input = msg_text (user_message_json (wm s4)), cm_intermediate_steps = [],
               cm_output = removeAll CHR ''`'' (replace parse_error_pattern [] (exn_str ?e))\<rparr>
              ((log_call Execute_agent s4)\<lparr>wm := wm s4\<rparr>)"
    using agent_parse_failure_fallback [OF h1 h2 h3] c by blast
  then show ?thesis
    using c by (simp add: w pipeline_defs input_defs string_defs)
qed

text \<open>
  C10, as stated, fails: for the failure message made of the pattern, the raw
  text \<open>Could not parse LLM output: `y\<close> and the closing backtick, the raw text
  holds a backtick, and with its backticks stripped it is
  \<open>Could not parse LLM output: y\<close>; the recovered output is \<open>y\<close>, since line 548
  removes every occurrence of the pattern, not only the one in front.
\<close>

theorem fallback_strips_backticks_counterexample:
  "on_agent_failure
     (Exn ''OutputParserException''
        (parse_error_pattern @ ''Could not parse LLM output: `y'' @ ''`''))
     (state_with_text ''hello'')
     = Inr \<lparr>cm_input = ''hello'', cm_intermediate_steps = [], cm_output = ''y''\<rparr>
   \<and> CHR ''`'' \<in> set ''Could not parse LLM output: `y''
   \<and> removeAll CHR ''`'' ''Could not parse LLM output: `y'' = ''Could not parse LLM output: y''"
  by (simp add: on_agent_failure_def input_defs string_defs)

text \<open>
  C10, amended: in the parse-failure fallback the recovered output is the
  failure message with every occurrence of the pattern
  \<open>Could not parse LLM output: `\<close> removed and then every backtick removed. For a
  message that is the pattern, the raw text and a closing backtick, where the
  pattern does not occur in the raw text followed by the closing backtick, the
  output is the raw text with all of its backticks stripped, and differs from
  the raw text when that holds a backtick.
\<close>

theorem fallback_strips_backticks:
  assumes "contains parse_error_pattern (exn_str e)"
  shows "\<exists>cm. on_agent_failure e s = Inr cm
           \<and> cm_output cm = removeAll CHR ''`'' (replace parse_error_pattern [] (exn_str e))
           \<and> (\<forall>raw. exn_str e = parse_error_pattern @ raw @ ''`''
                  \<and> \<not> contains parse_error_pattern (raw @ ''`'')
                \<longrightarrow> cm_output cm = removeAll CHR ''`'' raw
                    \<and> (CHR ''`'' \<in> set raw \<longrightarrow> cm_output cm \<noteq> raw))"
proof -
  let ?cm = "\<lparr>cm_input = msg_text (user_message_json (wm s)), cm_intermediate_steps = [],
              cm_output = unparsable_llm_output (exn_str e)\<rparr>"
  from assms have r: "on_agent_failure e s = Inr ?cm"
    by (simp add: on_agent_failure_def)
  have o: "cm_output ?cm = removeAll CHR ''`'' (replace parse_error_pattern [] (exn_str e))"
    by (simp add: unparsable_llm_output_removeAll)
  have "cm_output ?cm = removeAll CHR ''`'' raw
          \<and> (CHR ''`'' \<in> set raw \<longrightarrow> cm_output ?cm \<noteq> raw)"
    if a: "exn_str e = parse_error_pattern @ raw @ ''`''
             \<and> \<not> contains parse_error_pattern (raw @ ''`'')" for raw
  proof -
    from a have eq: "cm_output ?cm = removeAll CHR ''`'' raw"
      using unparsable_llm_output_raw [of raw] by simp
    have "CHR ''`'' \<notin> set (removeAll CHR ''`'' raw)" by simp
    then have "CHR ''`'' \<in> set raw \<Longrightarrow> removeAll CHR ''`'' raw \<noteq> raw" by metis
    with eq show ?thesis by simp
  qed
  with r o show ?thesis by blast
qed

text \<open>
  The theorem at the failure message \<open>Could not parse LLM output: `use `ls` now`\<close>:
  the recovered output is \<open>use ls now\<close>.
\<close>

theorem fallback_strips_backticks_witness:
  "contains parse_error_pattern (parse_error_pattern @ ''use `ls` now'' @ ''`'')
   \<and> \<not> contains parse_error_pattern (''use `ls` now'' @ ''`'')
   \<and> on_agent_failure
       (Exn ''OutputParserException'' (parse_error_pattern @ ''use `ls` now'' @ ''`''))
       (state_with_text ''hello'')
       = Inr \<lparr>cm_input = ''hello'', cm_intermediate_steps = [], cm_output = ''use ls now''\<rparr>"
proof -
  let ?e = "Exn ''OutputParserException'' (parse_error_pattern @ ''use `ls` now'' @ ''`'')"
  have c: "contains parse_error_pattern (exn_str ?e)"
    by (simp add: parse_error_pattern_def)
  have n: "\<not> contains parse_error_pattern (''use `ls` now'' @ ''`'')"
    by (simp add: parse_error_pattern_def)
  from fallback_strips_backticks [OF c, of "state_with_text ''hello''"] n
  obtain cm where cm: "on_agent_failure ?e (state_with_text ''hello'') = Inr cm"
    and out: "cm_output cm = removeAll CHR ''`'' ''use `ls` now''"
    by auto
  from cm c have "cm_input cm = ''hello''" "cm_intermediate_steps cm = []"
    by (auto simp: on_agent_failure_def Let_def input_defs)
  with out have "cm = \<lparr>cm_input = ''hello'', cm_intermediate_steps = [], cm_output = ''use ls now''\<rparr>"
    by simp
  with cm c n show ?thesis by simp
qed

section \<open>Episodic persistence\<close>

lemma store_and_reply_calls:
  "\<exists>rest. calls (snd (store_and_reply en uid cm s))
            = calls s @ Episodic_add_texts [msg_text (user_message_json (wm s))]
                          [\<lparr>em_source = uid, em_when = clock en (clock_reads s)\<rparr>] # rest
          \<and> (\<forall>ev \<in> set rest. \<exists>out. ev = Execute_hook ''before_cat_sends_message'' (Output out))"
  by (auto simp: store_and_reply_def send_message_def run_hook_def time_time_def Let_def
        log_call_def update_conversation_history_def split: sum.splits prod.splits)

text \<open>
  C4, as stated, fails: the claim stores the original user message text. For
  the message of 650 characters with a space at index 480 the text that is
  stored is the working text, the first 480 characters, and the original text
  is not stored in episodic memory.
\<close>

theorem episodic_text_counterexample:
  "Episodic_add_texts [replicate 480 CHR ''a''] [\<lparr>em_source = ''alice'', em_when = 0\<rparr>]
     \<in> set (calls (snd (call env_quiet (message_of text_650) (state_with_text ''''))))
   \<and> Episodic_add_texts [text_650] [\<lparr>em_source = ''alice'', em_when = 0\<rparr>]
     \<notin> set (calls (snd (call env_quiet (message_of text_650) (state_with_text ''''))))
   \<and> replicate 480 CHR ''a'' \<noteq> text_650"
proof -
  have r: "read_message env_quiet (message_of text_650) (state_with_text '''')
     = segment env_quiet ((state_with_text text_650)\<lparr>calls := [Execute_hook ''before_cat_reads_message'' (Message (message_of text_650))]\<rparr>)"
    by (simp add: read_message_def run_hook_def log_call_def request_user_id_def Let_def input_defs)
  have ne: "replicate 480 CHR ''a'' \<noteq> text_650"
  proof
    assume "replicate 480 CHR ''a'' = text_650"
    then have "length (replicate 480 CHR ''a'') = length text_650" by simp
    then show False by (simp add: text_650_parts)
  qed
  have s: "segment env_quiet ((state_with_text text_650)\<lparr>calls := [Execute_hook ''before_cat_reads_message'' (Message (message_of text_650))]\<rparr>)
     = (Inr (), (state_with_text (replicate 480 CHR ''a''))\<lparr>calls := [Execute_hook ''before_cat_reads_message'' (Message (message_of text_650)),
        String_to_docs (CHR '' '' # replicate 169 CHR ''b'') ''text/plain'',
         Store_documents [\<lparr>page_content = CHR '' '' # replicate 169 CHR ''b'', doc_metadata = []\<rparr>] '''']\<rparr>)"
    by (subst segment_text_650) (simp_all add: state_with_text_def wm_with_text_def set_text_def)
  have ne2: "text_650 \<noteq> replicate 480 CHR ''a''" using ne by metis
  have c: "call env_quiet (message_of text_650) (state_with_text '''')
      = recall_and_reply env_quiet ''alice''
          ((state_with_text (replicate 480 CHR ''a''))\<lparr>calls := [Execute_hook ''before_cat_reads_message'' (Message (message_of text_650)),
        String_to_docs (CHR '' '' # replicate 169 CHR ''b'') ''text/plain'',
         Store_documents [\<lparr>page_content = CHR '' '' # replicate 169 CHR ''b'', doc_metadata = []\<rparr>] '''']\<rparr>)"
    unfolding call_def r s by (simp add: request_user_id_def message_of_def)
  show ?thesis
    unfolding c using ne ne2
    by (simp add: pipeline_defs env_quiet_def state_with_text_def wm_with_text_def message_of_def)
qed

text \<open>
  C4, amended: for every request that reaches the agent (the message was read
  and the recall stage returned) and in which the agent returns or fails with a
  message that contains the parse-error pattern, the next call to a
  collaborator after the agent is \<open>episodic.add_texts\<close>, with the working message
  text as it stands after the agent ran (after the hook on the message and
  after segmentation, so the kept prefix of an oversize text), tagged with the
  user id of the request and a reading of the clock; the only collaborator call
  that can follow is the hook \<open>before_cat_sends_message\<close> on the assembled output.
\<close>

theorem episodic_add_after_agent:
  assumes "read_message en umj s = (Inr (), s3)"
    and "recall_relevant_memories_to_working_memory en s3 = (Inr (), s4)"
    and "execute_agent en (wm s4) = (ra, m)"
    and "(\<exists>cm. ra = Inr cm) \<or> (\<exists>e. ra = Inl e \<and> contains parse_error_pattern (exn_str e))"
  shows "\<exists>rest. calls (snd (call en umj s))
            = calls s4 @ [Execute_agent,
                          Episodic_add_texts [msg_text (user_message_json m)]
                            [\<lparr>em_source = request_user_id umj,
                              em_when = clock en (clock_reads s4)\<rparr>]] @ rest
          \<and> (\<forall>ev \<in> set rest. \<exists>out. ev = Execute_hook ''before_cat_sends_message'' (Output out))"
proof -
  let ?s5 = "(log_call Execute_agent s4)\<lparr>wm := m\<rparr>"
  from assms(3,4) obtain cm where
    "reply_with_agent en (request_user_id umj) s4 = store_and_reply en (request_user_id umj) cm ?s5"
    by (auto simp: reply_with_agent_def on_agent_failure_def log_call_def Let_def)
  then have c: "call en umj s = store_and_reply en (request_user_id umj) cm ?s5"
    by (simp add: call_after_recall [OF assms(1,2)])
  from store_and_reply_calls [of en "request_user_id umj" cm ?s5]
  show ?thesis unfolding c by (simp add: log_call_def)
qed

text \<open>
  The theorem at the message \<open>hello\<close> of user \<open>alice\<close>, in the environment where
  nothing raises: the text \<open>hello\<close> is stored for \<open>alice\<close> with the first reading of
  the clock.
\<close>

theorem episodic_add_after_agent_witness:
  "Episodic_add_texts [''hello''] [\<lparr>em_source = ''alice'', em_when = 0\<rparr>]
     \<in> set (calls (snd (call env_quiet (message_of ''hello'') (state_with_text ''''))))"
proof -
  define s3 where "s3 = snd (read_message env_quiet (message_of ''hello'') (state_with_text ''''))"
  define s4 where "s4 = snd (recall_relevant_memories_to_working_memory env_quiet s3)"
  let ?cm = "\<lparr>cm_input = msg_text (user_message_json (wm s4)), cm_intermediate_steps = [],
              cm_output = ''meow''\<rparr>"
  have h1: "read_message env_quiet (message_of ''hello'') (state_with_text '''') = (Inr (), s3)"
    unfolding s3_def by (simp add: pipeline_defs input_defs)
  have h2: "recall_relevant_memories_to_working_memory env_quiet s3 = (Inr (), s4)"
    unfolding s4_def s3_def by (simp add: pipeline_defs input_defs)
  have h3: "execute_agent env_quiet (wm s4) = (Inr ?cm, wm s4)"
    by (simp add: input_defs)
  have h4: "(\<exists>cm. Inr ?cm = (Inr cm :: exn + cat_message))
            \<or> (\<exists>e. Inr ?cm = Inl e \<and> contains parse_error_pattern (exn_str e))"
    by simp
  have f: "msg_text (user_message_json (wm s4)) = ''hello''" "clock_reads s4 = 0"
    "clock env_quiet 0 = 0" "request_user_id (message_of ''hello'') = ''alice''"
    unfolding s4_def s3_def by (simp_all add: pipeline_defs input_defs)
  from episodic_add_after_agent [OF h1 h2 h3 h4] show ?thesis
    by (auto simp: f)
qed

section \<open>Conversation history\<close>

lemma run_hook_history:
  "\<forall>w. history (snd (h w)) = history w
     \<Longrightarrow> history (wm (snd (run_hook n p h s))) = history (wm s)"
  by (simp add: run_hook_def log_call_def Let_def split: prod.splits) (metis snd_conv)

lemma segment_history: "history (wm (snd (segment en s))) = history (wm s)"
  by (simp add: segment_def log_call_def set_text_def Let_def split: sum.splits)

lemma read_message_history:
  assumes "keeps_history en"
  shows "history (wm (snd (read_message en umj s))) = history (wm s)"
proof -
  let ?m0 = "umj\<lparr>msg_user_id := Some (request_user_id umj)\<rparr>"
  let ?s0 = "s\<lparr>wm := (wm s)\<lparr>user_message_json := ?m0\<rparr>\<rparr>"
  let ?r = "run_hook ''before_cat_reads_message'' (Message ?m0) (before_cat_reads_message en ?m0) ?s0"
  from assms have "\<forall>w. history (snd (before_cat_reads_message en ?m0 w)) = history w"
    by (simp add: keeps_history_def)
  then have h: "history (wm (snd ?r)) = history (wm s)"
    using run_hook_history [of "before_cat_reads_message en ?m0" _ _ ?s0] by simp
  show ?thesis
  proof (cases ?r)
    case (Pair a s1)
    with h have h1: "history (wm s1) = history (wm s)" by simp
    show ?thesis
    proof (cases a)
      case (Inl e)
      with Pair h1 show ?thesis by (simp add: read_message_def Let_def)
    next
      case (Inr msg)
      with Pair h1 show ?thesis by (simp add: read_message_def Let_def segment_history)
    qed
  qed
qed

lemma set_memories_history: "history (wm (set_memories t ms s)) = history (wm s)"
  by (simp add: set_memories_def)

lemma log_call_wm: "wm (log_call ev s) = wm s"
  by (simp add: log_call_def)

lemma recall_tiers_history: "history (wm (snd (recall_tiers en cs s))) = history (wm s)"
proof (induction cs arbitrary: s)
  case Nil
  then show ?case by simp
next
  case (Cons c cs)
  obtain config memory_type where c: "c = (config, memory_type)" by (cases c)
  show ?case
    by (cases "recall_memories_from_embedding en memory_type config")
       (simp_all add: c Cons.IH Let_def set_memories_history log_call_wm)
qed

lemma keeps_history_run_hooks:
  assumes "keeps_history en"
  shows "history (wm (snd (run_hook n p (cat_recall_query en q) s))) = history (wm s)"
    "history (wm (snd (run_hook n p (before_cat_recalls_memories en) s))) = history (wm s)"
    "history (wm (snd (run_hook n p (before_cat_recalls_episodic_memories en c) s))) = history (wm s)"
    "history (wm (snd (run_hook n p (before_cat_recalls_declarative_memories en c) s))) = history (wm s)"
    "history (wm (snd (run_hook n p (before_cat_recalls_procedural_memories en c) s))) = history (wm s)"
    "history (wm (snd (run_hook n p (after_cat_recalls_memories en) s))) = history (wm s)"
    "history (wm (snd (run_hook n p (before_cat_sends_message en out) s))) = history (wm s)"
  using assms by (simp_all add: keeps_history_def run_hook_history)

lemma recall_configs_history:
  assumes "keeps_history en"
  shows "history (wm (snd (recall_configs en emb uid s))) = history (wm s)"
proof -
  note k = keeps_history_run_hooks [OF assms]
  show ?thesis
    unfolding recall_configs_def Let_def
    by (auto split: prod.splits sum.splits)
       (metis k(3,4,5) snd_conv)+
qed

lemma recall_with_query_history:
  assumes "keeps_history en"
  shows "history (wm (snd (recall_with_query en uid q s))) = history (wm s)"
proof -
  note k = keeps_history_run_hooks [OF assms]
  let ?s1 = "log_call (Embed_query q) s"
  show ?thesis
  proof (cases "embed_query en q")
    case (Inl e)
    then show ?thesis by (simp add: recall_with_query_def Let_def log_call_wm)
  next
    case (Inr emb)
    let ?s2 = "?s1\<lparr>wm := (wm ?s1)\<lparr>recall_query := Some q\<rparr>\<rparr>"
    obtain r3 s3 where h3: "run_hook ''before_cat_recalls_memories'' No_payload
                      (before_cat_recalls_memories en) ?s2 = (r3, s3)"
      by (cases "run_hook ''before_cat_recalls_memories'' No_payload
                      (before_cat_recalls_memories en) ?s2")
    from k(2) [of "''before_cat_recalls_memories''" No_payload ?s2] h3
    have e3: "history (wm s3) = history (wm s)" by (simp add: log_call_wm)
    obtain r4 s4 where h4: "recall_configs en emb uid s3 = (r4, s4)"
      by (cases "recall_configs en emb uid s3")
    from recall_configs_history [OF assms, of emb uid s3] h4 e3
    have e4: "history (wm s4) = history (wm s)" by simp
    show ?thesis
    proof (cases r3)
      case (Inl e)
      with Inr h3 e3 show ?thesis by (simp add: recall_with_query_def Let_def)
    next
      case r3: (Inr u)
      show ?thesis
      proof (cases r4)
        case (Inl e)
        with Inr h3 r3 h4 e4 show ?thesis by (simp add: recall_with_query_def Let_def)
      next
        case r4: (Inr configs)
        obtain r5 s5 where h5: "recall_tiers en (zip configs memory_types) s4 = (r5, s5)"
          by (cases "recall_tiers en (zip configs memory_types) s4")
        from recall_tiers_history [of en "zip configs memory_types" s4] h5 e4
        have e5: "history (wm s5) = history (wm s)" by simp
        show ?thesis
        proof (cases r5)
          case (Inl e)
          with Inr h3 r3 h4 r4 h5 e5 show ?thesis by (simp add: recall_with_query_def Let_def)
        next
          case (Inr u5)
          with \<open>embed_query en q = Inr emb\<close> h3 r3 h4 r4 h5 e5
            k(6) [of "''after_cat_recalls_memories''" No_payload s5]
          show ?thesis by (simp add: recall_with_query_def Let_def)
        qed
      qed
    qed
  qed
qed

lemma recall_history:
  assumes "keeps_history en"
  shows "history (wm (snd (recall_relevant_memories_to_working_memory en s))) = history (wm s)"
proof -
  let ?q = "msg_text (user_message_json (wm s))"
  obtain r1 s1 where h1: "run_hook ''cat_recall_query'' (Query ?q) (cat_recall_query en ?q) s = (r1, s1)"
    by (cases "run_hook ''cat_recall_query'' (Query ?q) (cat_recall_query en ?q) s")
  from keeps_history_run_hooks(1) [OF assms, of "''cat_recall_query''" "Query ?q" ?q s] h1
  have e1: "history (wm s1) = history (wm s)" by simp
  show ?thesis
  proof (cases r1)
    case (Inl e)
    with h1 e1 show ?thesis
      by (simp add: recall_relevant_memories_to_working_memory_def Let_def)
  next
    case (Inr q)
    with h1 e1 recall_with_query_history [OF assms, of "get_user_id (wm s)" q s1]
    show ?thesis
      by (simp add: recall_relevant_memories_to_working_memory_def Let_def)
  qed
qed

lemma update_conversation_history_history:
  "history (wm (update_conversation_history en who_v msg_v why_v s))
     = history (wm s) @ [\<lparr>turn_who = who_v, turn_message = msg_v, turn_why = why_v,
                          turn_when = clock en (clock_reads s)\<rparr>]"
  by (simp add: update_conversation_history_def time_time_def)

lemma send_message_history:
  assumes "send_message en um out s = (Inr rep, s')"
  shows "\<exists>out' h tH tA. rep = Chat out'
           \<and> history (wm s')
               = h @ [\<lparr>turn_who = ''Human'', turn_message = um, turn_why = None, turn_when = tH\<rparr>,
                      \<lparr>turn_who = ''AI'', turn_message = out_content out',
                       turn_why = Some (out_why out'), turn_when = tA\<rparr>]
           \<and> (keeps_history en \<longrightarrow> h = history (wm s))"
proof -
  obtain r1 s1 where h1: "run_hook ''before_cat_sends_message'' (Output out)
                            (before_cat_sends_message en out) s = (r1, s1)"
    by (cases "run_hook ''before_cat_sends_message'' (Output out) (before_cat_sends_message en out) s")
  with assms obtain out' where r1: "r1 = Inr out'"
    by (cases r1) (simp_all add: send_message_def)
  have k: "keeps_history en \<longrightarrow> history (wm s1) = history (wm s)"
    using keeps_history_run_hooks(7) [of en "''before_cat_sends_message''" "Output out" out s] h1
    by auto
  from assms h1 r1 have "rep = Chat out'"
    and "s' = update_conversation_history en ''AI'' (out_content out') (Some (out_why out'))
                (update_conversation_history en ''Human'' um None s1)"
    by (simp_all add: send_message_def Let_def)
  then have "history (wm s')
      = history (wm s1) @ [\<lparr>turn_who = ''Human'', turn_message = um, turn_why = None,
                             turn_when = clock en (clock_reads s1)\<rparr>,
                           \<lparr>turn_who = ''AI'', turn_message = out_content out',
                            turn_why = Some (out_why out'),
                            turn_when = clock en (clock_reads (update_conversation_history en ''Human'' um None s1))\<rparr>]"
    by (simp add: update_conversation_history_history)
  with \<open>rep = Chat out'\<close> k show ?thesis by blast
qed

lemma store_and_reply_history:
  assumes "store_and_reply en uid cm s = (Inr rep, s')"
  shows "\<exists>out' h um tH tA. rep = Chat out'
           \<and> history (wm s')
               = h @ [\<lparr>turn_who = ''Human'', turn_message = um, turn_why = None, turn_when = tH\<rparr>,
                      \<lparr>turn_who = ''AI'', turn_message = out_content out',
                       turn_why = Some (out_why out'), turn_when = tA\<rparr>]
           \<and> (keeps_history en \<longrightarrow> h = history (wm s))"
proof -
  let ?um = "msg_text (user_message_json (wm s))"
  let ?s2 = "log_call (Episodic_add_texts [?um] [\<lparr>em_source = uid, em_when = clock en (clock_reads s)\<rparr>])
               (s\<lparr>clock_reads := Suc (clock_reads s)\<rparr>)"
  from assms have "send_message en ?um (final_output uid cm (wm ?s2)) ?s2 = (Inr rep, s')"
    by (simp add: store_and_reply_def time_time_def Let_def split: sum.splits)
  from send_message_history [OF this] show ?thesis
    by (simp add: log_call_wm) blast
qed

lemma reply_with_agent_history:
  assumes "reply_with_agent en uid s = (Inr rep, s')"
  shows "\<exists>out' h um tH tA. rep = Chat out'
           \<and> history (wm s')
               = h @ [\<lparr>turn_who = ''Human'', turn_message = um, turn_why = None, turn_when = tH\<rparr>,
                      \<lparr>turn_who = ''AI'', turn_message = out_content out',
                       turn_why = Some (out_why out'), turn_when = tA\<rparr>]
           \<and> (keeps_history en \<longrightarrow> h = history (wm s))"
proof -
  obtain ra m where a: "execute_agent en (wm s) = (ra, m)" by (cases "execute_agent en (wm s)")
  let ?s2 = "(log_call Execute_agent s)\<lparr>wm := m\<rparr>"
  have km: "keeps_history en \<longrightarrow> history (wm ?s2) = history (wm s)"
    using a by (auto simp: keeps_history_def) (metis snd_conv)
  from assms a obtain cm where "store_and_reply en uid cm ?s2 = (Inr rep, s')"
    by (auto simp: reply_with_agent_def Let_def log_call_wm split: sum.splits)
  from store_and_reply_history [OF this] km show ?thesis
    by (metis (no_types, lifting))
qed

lemma on_recall_failure_state: "snd (on_recall_failure e s) = s"
  by (simp add: on_recall_failure_def split: sum.splits)

lemma on_recall_failure_not_chat: "fst (on_recall_failure e s) \<noteq> Inr (Chat out)"
  by (simp add: on_recall_failure_def split: sum.splits)

text \<open>
  C5: when \<open>__call__\<close> returns a chat output (the agent returned, or failed with a
  parse error and the fallback was taken), the conversation history ends with
  a \<open>Human\<close> turn followed by an \<open>AI\<close> turn that carries the content and the
  why-block of the output; if the hooks and the agent leave the history as they
  find it, the history is the one before the request with exactly these two
  turns appended. When the recall stage raises, the pipeline leaves the state,
  and so the history, as the recall stage left it; it is the history before the
  request if the hooks leave the history alone.
\<close>

theorem conversation_history_turns:
  assumes "call en umj s = (r, s')"
  shows "(\<forall>out. r = Inr (Chat out) \<longrightarrow>
            (\<exists>h um tH tA.
               history (wm s')
                 = h @ [\<lparr>turn_who = ''Human'', turn_message = um, turn_why = None, turn_when = tH\<rparr>,
                        \<lparr>turn_who = ''AI'', turn_message = out_content out,
                         turn_why = Some (out_why out), turn_when = tA\<rparr>]
               \<and> (keeps_history en \<longrightarrow> h = history (wm s))))
       \<and> (\<forall>s3 s4 e. read_message en umj s = (Inr (), s3)
              \<and> recall_relevant_memories_to_working_memory en s3 = (Inl e, s4)
            \<longrightarrow> s' = s4 \<and> (keeps_history en \<longrightarrow> history (wm s') = history (wm s)))"
proof (intro conjI allI impI)
  fix out
  assume r: "r = Inr (Chat out)"
  obtain r3 s3 where h3: "read_message en umj s = (r3, s3)" by (cases "read_message en umj s")
  with assms r have r3: "r3 = Inr ()" by (cases r3) (simp_all add: call_def)
  obtain r4 s4 where h4: "recall_relevant_memories_to_working_memory en s3 = (r4, s4)"
    by (cases "recall_relevant_memories_to_working_memory en s3")
  have r4: "r4 = Inr ()"
  proof (cases r4)
    case (Inl e)
    with assms h3 r3 h4 have "fst (on_recall_failure e s4) = r"
      by (simp add: call_def recall_and_reply_def)
    with r on_recall_failure_not_chat show ?thesis by metis
  next
    case (Inr u)
    then show ?thesis by simp
  qed
  from assms h3 r3 h4 r4 r
  have "reply_with_agent en (request_user_id umj) s4 = (Inr (Chat out), s')"
    by (simp add: call_def recall_and_reply_def)
  from reply_with_agent_history [OF this]
  obtain h um tH tA where
    hh: "history (wm s')
                 = h @ [\<lparr>turn_who = ''Human'', turn_message = um, turn_why = None, turn_when = tH\<rparr>,
                        \<lparr>turn_who = ''AI'', turn_message = out_content out,
                         turn_why = Some (out_why out), turn_when = tA\<rparr>]"
    and k: "keeps_history en \<longrightarrow> h = history (wm s4)"
    by auto
  have "keeps_history en \<longrightarrow> history (wm s4) = history (wm s)"
    using read_message_history [of en umj s] recall_history [of en s3] h3 h4 by auto
  with hh k show "\<exists>h um tH tA.
               history (wm s')
                 = h @ [\<lparr>turn_who = ''Human'', turn_message = um, turn_why = None, turn_when = tH\<rparr>,
                        \<lparr>turn_who = ''AI'', turn_message = out_content out,
                         turn_why = Some (out_why out), turn_when = tA\<rparr>]
               \<and> (keeps_history en \<longrightarrow> h = history (wm s))"
    by auto
next
  fix s3 s4 e
  assume a: "read_message en umj s = (Inr (), s3)
              \<and> recall_relevant_memories_to_working_memory en s3 = (Inl e, s4)"
  with assms have "on_recall_failure e s4 = (r, s')"
    by (simp add: call_def recall_and_reply_def)
  with on_recall_failure_state [of e s4] show "s' = s4" by simp
  assume "keeps_history en"
  with a read_message_history [of en umj s] recall_history [of en s3] \<open>s' = s4\<close>
  show "history (wm s') = history (wm s)" by simp
qed

lemma keeps_history_quiet: "keeps_history env_quiet" "keeps_history env_recall_raises"
  by (simp_all add: keeps_history_def input_defs)

text \<open>
  The theorem at the message \<open>hello\<close>, in the environment where nothing raises
  and in the one where the vector store raises during recall, both starting
  from an empty history.
\<close>

theorem conversation_history_turns_witness:
  "keeps_history env_quiet
   \<and> map turn_who (history (wm (snd (call env_quiet (message_of ''hello'') (state_with_text '''')))))
       = [''Human'', ''AI'']
   \<and> keeps_history env_recall_raises
   \<and> history (wm (snd (call env_recall_raises (message_of ''hello'') (state_with_text '''')))) = []"
proof -
  let ?c = "call env_quiet (message_of ''hello'') (state_with_text '''')"
  let ?out = "\<lparr>out_type = ''chat'', out_user_id = ''alice'', out_content = ''meow'',
                out_why = \<lparr>why_input = ''hello'', why_intermediate_steps = [],
                           why_episodic = [], why_declarative = [], why_procedural = []\<rparr>\<rparr>"
  have r: "fst ?c = Inr (Chat ?out)"
    by (simp add: pipeline_defs input_defs)
  have c: "?c = (Inr (Chat ?out), snd ?c)"
    using r by (simp add: prod_eq_iff)
  have h0: "history (wm (state_with_text '''')) = []"
    by (simp add: input_defs)
  from conversation_history_turns [OF c] keeps_history_quiet(1) h0
  have a: "map turn_who (history (wm (snd ?c))) = [''Human'', ''AI'']"
    by auto
  let ?d = "call env_recall_raises (message_of ''hello'') (state_with_text '''')"
  define s3 where "s3 = snd (read_message env_recall_raises (message_of ''hello'') (state_with_text ''''))"
  define s4 where "s4 = snd (recall_relevant_memories_to_working_memory env_recall_raises s3)"
  have h1: "read_message env_recall_raises (message_of ''hello'') (state_with_text '''') = (Inr (), s3)"
    unfolding s3_def by (simp add: pipeline_defs input_defs)
  have h2: "recall_relevant_memories_to_working_memory env_recall_raises s3
              = (Inl (Exn ''ValueError'' ''Vector dimension error''), s4)"
    unfolding s4_def s3_def by (simp add: pipeline_defs input_defs)
  have d: "?d = (fst ?d, snd ?d)" by simp
  from conversation_history_turns [OF d] h1 h2 keeps_history_quiet(2) h0
  have b: "history (wm (snd ?d)) = []"
    by auto
  from a b keeps_history_quiet show ?thesis by simp
qed

section \<open>Failures of the recall stage and of hooks\<close>

text \<open>
  C2, at a failing input: the vector store raises \<open>ValueError\<close> while the message
  \<open>hello\<close> is recalled. The handler of lines 519 to 532 calls
  \<open>traceback.print_exc(e)\<close> before it builds the error output; that call raises
  \<open>TypeError\<close>, which leaves \<open>__call__\<close>, so the output with type \<open>error\<close> and name
  \<open>VectorMemoryError\<close> is not returned. The last collaborator call is the query
  of the episodic collection: neither the agent nor \<open>episodic.add_texts\<close> is
  called.
\<close>

theorem recall_failure_raises_type_error:
  "fst (call env_recall_raises (message_of ''hello'') (state_with_text ''''))
     = Inl (Exn ''TypeError''
              ([CHR 0x27] @ ''>='' @ [CHR 0x27] @ '' not supported between instances of ''
               @ [CHR 0x27] @ ''ValueError'' @ [CHR 0x27] @ '' and '' @ [CHR 0x27] @ ''int'' @ [CHR 0x27]))
   \<and> fst (call env_recall_raises (message_of ''hello'') (state_with_text ''''))
     \<noteq> Inr (Error \<lparr>err_type = ''error'', err_name = ''VectorMemoryError'',
                    err_description = err_message\<rparr>)
   \<and> calls (snd (call env_recall_raises (message_of ''hello'') (state_with_text '''')))
     = [Execute_hook ''before_cat_reads_message'' (Message (message_of ''hello'')),
        Execute_hook ''cat_recall_query'' (Query ''hello''),
        Embed_query ''hello'',
        Execute_hook ''before_cat_recalls_memories'' No_payload,
        Execute_hook ''before_cat_recalls_episodic_memories''
          (Config (default_episodic_recall_config [1, 0] ''alice'')),
        Execute_hook ''before_cat_recalls_declarative_memories''
          (Config (default_declarative_recall_config [1, 0])),
        Execute_hook ''before_cat_recalls_procedural_memories''
          (Config (default_procedural_recall_config [1, 0])),
        Recall_memories ''episodic'' (default_episodic_recall_config [1, 0] ''alice'')]"
  by (simp add: pipeline_defs input_defs)




section \<open>Recall: one embedding, three default configurations\<close>

lemma recall_embed_calls:
  assumes "cat_recall_query en (msg_text (user_message_json (wm s))) (wm s) = (Inr q, w1)"
    and "recall_relevant_memories_to_working_memory en s = (r, s')"
  shows "filter is_embed_query (calls s') = filter is_embed_query (calls s) @ [Embed_query q]"
  using assms
  by (auto simp: recall_relevant_memories_to_working_memory_def recall_with_query_def
        recall_configs_def run_hook_def log_call_def Let_def memory_types_def set_memories_def
      split: sum.splits prod.splits)

text \<open>
  C8: in every recall in which the hook \<open>cat_recall_query\<close> returns a query, the
  embedder is read exactly once, with that query. When it returns a vector, the
  per-tier hooks are called in the order episodic, declarative, procedural,
  each with its default configuration: all three carry that one vector, \<open>k = 3\<close>
  and threshold \<open>0.7\<close>; the episodic one carries the metadata filter
  \<open>{"source": user_id}\<close> of the requesting user, the declarative and the
  procedural one carry none. A hook that raises ends the sequence there; when
  the recall returns, all three were called.
\<close>

theorem recall_embeds_query_once:
  assumes "cat_recall_query en (msg_text (user_message_json (wm s))) (wm s) = (Inr q, w1)"
    and "recall_relevant_memories_to_working_memory en s = (r, s')"
  shows "filter is_embed_query (calls s') = filter is_embed_query (calls s) @ [Embed_query q]
    \<and> (\<forall>emb. embed_query en q = Inr emb \<longrightarrow>
          (filter is_config_hook (calls s') = filter is_config_hook (calls s)
           \<or> filter is_config_hook (calls s') = filter is_config_hook (calls s) @
               [Execute_hook ''before_cat_recalls_episodic_memories''
                  (Config \<lparr>cfg_embedding = emb, cfg_k = 3, cfg_threshold = 7 / 10,
                           cfg_metadata = Some [(''source'', get_user_id (wm s))]\<rparr>)]
           \<or> filter is_config_hook (calls s') = filter is_config_hook (calls s) @
               [Execute_hook ''before_cat_recalls_episodic_memories''
                  (Config \<lparr>cfg_embedding = emb, cfg_k = 3, cfg_threshold = 7 / 10,
                           cfg_metadata = Some [(''source'', get_user_id (wm s))]\<rparr>),
                Execute_hook ''before_cat_recalls_declarative_memories''
                  (Config \<lparr>cfg_embedding = emb, cfg_k = 3, cfg_threshold = 7 / 10,
                           cfg_metadata = None\<rparr>)]
           \<or> filter is_config_hook (calls s') = filter is_config_hook (calls s) @
               [Execute_hook ''before_cat_recalls_episodic_memories''
                  (Config \<lparr>cfg_embedding = emb, cfg_k = 3, cfg_threshold = 7 / 10,
                           cfg_metadata = Some [(''source'', get_user_id (wm s))]\<rparr>),
                Execute_hook ''before_cat_recalls_declarative_memories''
                  (Config \<lparr>cfg_embedding = emb, cfg_k = 3, cfg_threshold = 7 / 10,
                           cfg_metadata = None\<rparr>),
                Execute_hook ''before_cat_recalls_procedural_memories''
                  (Config \<lparr>cfg_embedding = emb, cfg_k = 3, cfg_threshold = 7 / 10,
                           cfg_metadata = None\<rparr>)])
          \<and> (r = Inr () \<longrightarrow>
               filter is_config_hook (calls s') = filter is_config_hook (calls s) @
               [Execute_hook ''before_cat_recalls_episodic_memories''
                  (Config \<lparr>cfg_embedding = emb, cfg_k = 3, cfg_threshold = 7 / 10,
                           cfg_metadata = Some [(''source'', get_user_id (wm s))]\<rparr>),
                Execute_hook ''before_cat_recalls_declarative_memories''
                  (Config \<lparr>cfg_embedding = emb, cfg_k = 3, cfg_threshold = 7 / 10,
                           cfg_metadata = None\<rparr>),
                Execute_hook ''before_cat_recalls_procedural_memories''
                  (Config \<lparr>cfg_embedding = emb, cfg_k = 3, cfg_threshold = 7 / 10,
                           cfg_metadata = None\<rparr>)]))"
proof (intro conjI allI impI)
  from assms show "filter is_embed_query (calls s') = filter is_embed_query (calls s) @ [Embed_query q]"
    by (rule recall_embed_calls)
next
  fix emb
  assume e: "embed_query en q = Inr emb"
  let ?E1 = "Execute_hook ''before_cat_recalls_episodic_memories''
                  (Config \<lparr>cfg_embedding = emb, cfg_k = 3, cfg_threshold = 7 / 10,
                           cfg_metadata = Some [(''source'', get_user_id (wm s))]\<rparr>)"
  let ?E2 = "Execute_hook ''before_cat_recalls_declarative_memories''
                  (Config \<lparr>cfg_embedding = emb, cfg_k = 3, cfg_threshold = 7 / 10,
                           cfg_metadata = None\<rparr>)"
  let ?E3 = "Execute_hook ''before_cat_recalls_procedural_memories''
                  (Config \<lparr>cfg_embedding = emb, cfg_k = 3, cfg_threshold = 7 / 10,
                           cfg_metadata = None\<rparr>)"
  let ?F = "\<lambda>t. filter is_config_hook (calls t)"
  from assms e show "?F s' = ?F s \<or> ?F s' = ?F s @ [?E1] \<or> ?F s' = ?F s @ [?E1, ?E2]
                     \<or> ?F s' = ?F s @ [?E1, ?E2, ?E3]"
    by (auto simp: recall_relevant_memories_to_working_memory_def recall_with_query_def
        recall_configs_def run_hook_def log_call_def Let_def memory_types_def set_memories_def
        default_episodic_recall_config_def default_declarative_recall_config_def
        default_procedural_recall_config_def
      split: sum.splits prod.splits)
  assume "r = Inr ()"
  with assms e show "?F s' = ?F s @ [?E1, ?E2, ?E3]"
    by (auto simp: recall_relevant_memories_to_working_memory_def recall_with_query_def
        recall_configs_def run_hook_def log_call_def Let_def memory_types_def set_memories_def
        default_episodic_recall_config_def default_declarative_recall_config_def
        default_procedural_recall_config_def
      split: sum.splits prod.splits)
qed

text \<open>
  The theorem at the message \<open>hello\<close> of user \<open>alice\<close>, in the environment where
  nothing raises and the embedder returns the vector \<open>[1, 0]\<close>.
\<close>

theorem recall_embeds_query_once_witness:
  "filter is_embed_query
     (calls (snd (recall_relevant_memories_to_working_memory env_quiet (state_with_text ''hello''))))
     = [Embed_query ''hello'']
   \<and> filter is_config_hook
     (calls (snd (recall_relevant_memories_to_working_memory env_quiet (state_with_text ''hello''))))
     = [Execute_hook ''before_cat_recalls_episodic_memories''
          (Config \<lparr>cfg_embedding = [1, 0], cfg_k = 3, cfg_threshold = 7 / 10,
                   cfg_metadata = Some [(''source'', ''alice'')]\<rparr>),
        Execute_hook ''before_cat_recalls_declarative_memories''
          (Config \<lparr>cfg_embedding = [1, 0], cfg_k = 3, cfg_threshold = 7 / 10,
                   cfg_metadata = None\<rparr>),
        Execute_hook ''before_cat_recalls_procedural_memories''
          (Config \<lparr>cfg_embedding = [1, 0], cfg_k = 3, cfg_threshold = 7 / 10,
                   cfg_metadata = None\<rparr>)]"
proof -
  let ?s = "state_with_text ''hello''"
  let ?c = "recall_relevant_memories_to_working_memory env_quiet ?s"
  have h1: "cat_recall_query env_quiet (msg_text (user_message_json (wm ?s))) (wm ?s)
              = (Inr ''hello'', wm ?s)"
    by (simp add: input_defs)
  have r: "fst ?c = Inr ()"
    by (simp add: pipeline_defs input_defs)
  then have h2: "?c = (Inr (), snd ?c)" by (simp add: prod_eq_iff)
  have e: "embed_query env_quiet ''hello'' = Inr [1, 0]"
    by (simp add: input_defs)
  have f: "calls ?s = []" "get_user_id (wm ?s) = ''alice''"
    by (simp_all add: input_defs get_user_id_def)
  from recall_embeds_query_once [OF h1 h2] e show ?thesis
    by (simp add: f)
qed

section \<open>Tool embedding: reconciliation and idempotence\<close>

lemma fold_max_ge: "(a::nat) \<le> fold max xs a \<and> (\<forall>x \<in> set xs. x \<le> fold max xs a)"
proof (induction xs arbitrary: a)
  case Nil
  then show ?case by simp
next
  case (Cons x xs)
  from Cons.IH [of "max x a"] show ?case by auto
qed

lemma fresh_id_gt: "p \<in> set ps \<Longrightarrow> point_id p < fresh_id ps"
  using fold_max_ge [of 0 "map point_id ps"] by (auto simp: fresh_id_def less_Suc_eq_le)


lemma embed_new_tools_descriptions:
  "map point_page_content (procedural (embed_new_tools clk D ts st))
     = map point_page_content (procedural st)
       @ map tool_description (filter (\<lambda>t. tool_description t \<notin> set D) ts)"
  by (induction ts arbitrary: st) (auto simp: add_texts_def)

lemma embed_new_tools_appends:
  "\<exists>new. procedural (embed_new_tools clk D ts st) = procedural st @ new
         \<and> (\<forall>p \<in> set new. \<forall>p' \<in> set (procedural st). point_id p' < point_id p)"
proof (induction ts arbitrary: st)
  case Nil
  then show ?case by simp
next
  case (Cons t ts)
  show ?case
  proof (cases "tool_description t \<notin> set D")
    case False
    with Cons.IH [of st] show ?thesis by simp
  next
    case True
    let ?p0 = "\<lparr>point_id = fresh_id (procedural st), point_page_content = tool_description t,
                point_metadata = \<lparr>tm_source = ''tool'', tm_when = clk (index_clock_reads st),
                  tm_name = tool_name t, tm_docstring = tool_docstring t\<rparr>\<rparr>"
    let ?st' = "add_texts [tool_description t]
                [\<lparr>tm_source = ''tool'', tm_when = clk (index_clock_reads st),
                  tm_name = tool_name t, tm_docstring = tool_docstring t\<rparr>]
                (st\<lparr>index_clock_reads := Suc (index_clock_reads st)\<rparr>)"
    have p: "procedural ?st' = procedural st @ [?p0]" by (simp add: add_texts_def)
    from Cons.IH [of ?st'] obtain new where
      n: "procedural (embed_new_tools clk D ts ?st') = procedural ?st' @ new"
      and a: "\<forall>p \<in> set new. \<forall>p' \<in> set (procedural ?st'). point_id p' < point_id p"
      by blast
    have "procedural (embed_new_tools clk D (t # ts) st) = procedural st @ (?p0 # new)"
      using True n p by simp
    moreover have "\<forall>p \<in> set (?p0 # new). \<forall>p' \<in> set (procedural st). point_id p' < point_id p"
      using a p fresh_id_gt by auto
    ultimately show ?thesis by blast
  qed
qed

lemma embed_new_tools_calls:
  "store_calls (embed_new_tools clk D ts st)
     = store_calls st
       @ map (\<lambda>(t, n). Add_texts [tool_description t]
                [\<lparr>tm_source = ''tool'', tm_when = clk n, tm_name = tool_name t,
                  tm_docstring = tool_docstring t\<rparr>])
           (zip (filter (\<lambda>t. tool_description t \<notin> set D) ts)
                [index_clock_reads st ..<
                   index_clock_reads st + length (filter (\<lambda>t. tool_description t \<notin> set D) ts)])"
proof (induction ts arbitrary: st)
  case Nil
  then show ?case by simp
next
  case (Cons t ts)
  show ?case
  proof (cases "tool_description t \<notin> set D")
    case False
    with Cons.IH [of st] show ?thesis by simp
  next
    case True
    let ?st' = "add_texts [tool_description t]
                [\<lparr>tm_source = ''tool'', tm_when = clk (index_clock_reads st),
                  tm_name = tool_name t, tm_docstring = tool_docstring t\<rparr>]
                (st\<lparr>index_clock_reads := Suc (index_clock_reads st)\<rparr>)"
    have c: "index_clock_reads ?st' = Suc (index_clock_reads st)"
      and s: "store_calls ?st' = store_calls st @ [Add_texts [tool_description t]
                [\<lparr>tm_source = ''tool'', tm_when = clk (index_clock_reads st),
                  tm_name = tool_name t, tm_docstring = tool_docstring t\<rparr>]]"
      by (simp_all add: add_texts_def)
    have u: "\<And>c n. [c ..< Suc (c + n)] = c # [Suc c ..< Suc (c + n)]"
      by (simp add: upt_conv_Cons)
    from True Cons.IH [of ?st'] show ?thesis
      by (simp add: c s u del: upt_Suc)
  qed
qed

lemma points_to_be_deleted_filter:
  "points_to_be_deleted (map point_id ps) (map point_page_content ps) live
     = map point_id (filter (\<lambda>p. point_page_content p \<notin> set live) ps)"
  by (induction ps) (auto simp: points_to_be_deleted_def)

lemma delete_keeps_live:
  assumes "distinct (map point_id ps)"
    and "\<forall>p \<in> set new. \<forall>p' \<in> set ps. point_id p' < point_id p"
  shows "filter (\<lambda>p. point_id p \<notin> set (map point_id (filter (\<lambda>p. point_page_content p \<notin> set live) ps)))
           (ps @ new)
         = filter (\<lambda>p. point_page_content p \<in> set live) ps @ new"
proof -
  have old: "point_id p \<notin> set (map point_id (filter (\<lambda>p. point_page_content p \<notin> set live) ps))
               \<longleftrightarrow> point_page_content p \<in> set live" if "p \<in> set ps" for p
  proof
    assume "point_id p \<notin> set (map point_id (filter (\<lambda>p. point_page_content p \<notin> set live) ps))"
    with that show "point_page_content p \<in> set live" by force
  next
    assume l: "point_page_content p \<in> set live"
    show "point_id p \<notin> set (map point_id (filter (\<lambda>p. point_page_content p \<notin> set live) ps))"
    proof
      assume "point_id p \<in> set (map point_id (filter (\<lambda>p. point_page_content p \<notin> set live) ps))"
      then obtain p' where p': "p' \<in> set ps" "point_page_content p' \<notin> set live"
        "point_id p' = point_id p" by auto
      from assms(1) have "inj_on point_id (set ps)" by (simp add: distinct_map)
      with p' that have "p' = p" by (auto dest: inj_onD)
      with p' l show False by simp
    qed
  qed
  have new: "point_id p \<notin> set (map point_id (filter (\<lambda>p. point_page_content p \<notin> set live) ps))"
    if "p \<in> set new" for p
    using assms(2) that by fastforce
  have "filter (\<lambda>p. point_id p \<notin> set (map point_id (filter (\<lambda>p. point_page_content p \<notin> set live) ps))) ps
          = filter (\<lambda>p. point_page_content p \<in> set live) ps"
    using old by (intro filter_cong) auto
  moreover have "filter (\<lambda>p. point_id p \<notin> set (map point_id (filter (\<lambda>p. point_page_content p \<notin> set live) ps))) new = new"
    using new by (simp add: filter_id_conv)
  ultimately show ?thesis by simp
qed

lemma embed_tools_procedural:
  assumes "distinct (map point_id (procedural st))"
  shows "\<exists>new. procedural (embed_tools clk tools st)
           = filter (\<lambda>p. point_page_content p \<in> set (map tool_description tools)) (procedural st) @ new
         \<and> map point_page_content new
           = map tool_description
               (filter (\<lambda>t. tool_description t \<notin> set (map point_page_content (procedural st))) tools)"
proof -
  let ?ps = "procedural st"
  let ?D = "map point_page_content ?ps"
  let ?live = "map tool_description tools"
  let ?st1 = "st\<lparr>store_calls := store_calls st @ [Get_all_points]\<rparr>"
  let ?st2 = "embed_new_tools clk ?D tools ?st1"
  let ?stale = "filter (\<lambda>p. point_page_content p \<notin> set ?live) ?ps"
  from embed_new_tools_appends [of clk ?D tools ?st1] obtain new where
    n: "procedural ?st2 = ?ps @ new"
    and a: "\<forall>p \<in> set new. \<forall>p' \<in> set ?ps. point_id p' < point_id p"
    by auto
  from embed_new_tools_descriptions [of clk ?D tools ?st1] n
  have d: "map point_page_content new
             = map tool_description (filter (\<lambda>t. tool_description t \<notin> set ?D) tools)"
    by simp
  have k: "procedural (embed_tools clk tools st)
             = filter (\<lambda>p. point_page_content p \<in> set ?live) ?ps @ new"
  proof (cases "?stale = []")
    case True
    then have "filter (\<lambda>p. point_page_content p \<in> set ?live) ?ps = ?ps"
      by (simp add: filter_empty_conv filter_id_conv)
    with True n show ?thesis
      by (simp add: embed_tools_def get_all_points_def points_to_be_deleted_filter Let_def)
  next
    case False
    with n delete_keeps_live [OF assms a, of ?live] show ?thesis
      by (simp add: embed_tools_def get_all_points_def points_to_be_deleted_filter Let_def
            delete_def)
  qed
  from k d show ?thesis by blast
qed

lemma embed_tools_descriptions:
  assumes "distinct (map point_id (procedural st))"
  shows "map point_page_content (procedural (embed_tools clk tools st))
           = filter (\<lambda>d. d \<in> set (map tool_description tools))
               (map point_page_content (procedural st))
             @ filter (\<lambda>d. d \<notin> set (map point_page_content (procedural st)))
                 (map tool_description tools)"
proof -
  from embed_tools_procedural [OF assms, of clk tools] obtain new where
    "procedural (embed_tools clk tools st)
           = filter (\<lambda>p. point_page_content p \<in> set (map tool_description tools)) (procedural st) @ new"
    and "map point_page_content new
           = map tool_description
               (filter (\<lambda>t. tool_description t \<notin> set (map point_page_content (procedural st))) tools)"
    by blast
  then show ?thesis by (simp add: filter_map comp_def)
qed

lemma kept_and_missing_set:
  "set (filter (\<lambda>d. d \<in> set L) D @ filter (\<lambda>d. d \<notin> set D) L) = set L"
  by auto

lemma embed_tools_descriptions_set:
  assumes "distinct (map point_id (procedural st))"
  shows "set (map point_page_content (procedural (embed_tools clk tools st)))
           = set (map tool_description tools)"
  unfolding embed_tools_descriptions [OF assms] by (rule kept_and_missing_set)

lemma embed_tools_calls:
  "store_calls (embed_tools clk tools st)
     = store_calls st @ [Get_all_points]
       @ map (\<lambda>(t, n). Add_texts [tool_description t]
                [\<lparr>tm_source = ''tool'', tm_when = clk n, tm_name = tool_name t,
                  tm_docstring = tool_docstring t\<rparr>])
           (zip (filter (\<lambda>t. tool_description t \<notin> set (map point_page_content (procedural st))) tools)
                [index_clock_reads st ..<
                   index_clock_reads st
                   + length (filter (\<lambda>t. tool_description t \<notin> set (map point_page_content (procedural st))) tools)])
       @ (if filter (\<lambda>p. point_page_content p \<notin> set (map tool_description tools)) (procedural st) = []
          then []
          else [Delete ''procedural''
                  (map point_id (filter (\<lambda>p. point_page_content p \<notin> set (map tool_description tools))
                                   (procedural st)))])"
  by (simp add: embed_tools_def get_all_points_def points_to_be_deleted_filter Let_def
        delete_def embed_new_tools_calls)




text \<open>
  C7: \<open>embed_tools\<close> compares description strings for equality. After reading
  the collection it calls \<open>add_texts\<close> once for every live tool whose description
  no persisted record has, in the order of the tools, with the metadata
  \<open>source = "tool"\<close>, the time read from the clock, the name and the docstring of
  the tool; then, if some persisted record has a description that no live tool
  has, it calls \<open>delete\<close> exactly once, with the ids of all those records.
  Afterwards the collection holds the persisted records whose description is
  live, unchanged, followed by one record for each added tool, and the set of
  persisted descriptions is the set of the live descriptions.
\<close>

theorem embed_tools_reconciles:
  assumes "distinct (map point_id (procedural st))"
    and "embedded = map point_page_content (procedural st)"
    and "live = map tool_description tools"
    and "missing = filter (\<lambda>t. tool_description t \<notin> set embedded) tools"
    and "stale = filter (\<lambda>p. point_page_content p \<notin> set live) (procedural st)"
  shows "store_calls (embed_tools clk tools st)
           = store_calls st @ [Get_all_points]
             @ map (\<lambda>(t, n). Add_texts [tool_description t]
                      [\<lparr>tm_source = ''tool'', tm_when = clk n, tm_name = tool_name t,
                        tm_docstring = tool_docstring t\<rparr>])
                 (zip missing [index_clock_reads st ..< index_clock_reads st + length missing])
             @ (if stale = [] then [] else [Delete ''procedural'' (map point_id stale)])
       \<and> (\<exists>new. procedural (embed_tools clk tools st)
                   = filter (\<lambda>p. point_page_content p \<in> set live) (procedural st) @ new
                 \<and> map point_page_content new = map tool_description missing)
       \<and> set (map point_page_content (procedural (embed_tools clk tools st))) = set live"
proof (intro conjI)
  show "store_calls (embed_tools clk tools st)
           = store_calls st @ [Get_all_points]
             @ map (\<lambda>(t, n). Add_texts [tool_description t]
                      [\<lparr>tm_source = ''tool'', tm_when = clk n, tm_name = tool_name t,
                        tm_docstring = tool_docstring t\<rparr>])
                 (zip missing [index_clock_reads st ..< index_clock_reads st + length missing])
             @ (if stale = [] then [] else [Delete ''procedural'' (map point_id stale)])"
    unfolding assms(2-5) by (rule embed_tools_calls)
  show "\<exists>new. procedural (embed_tools clk tools st)
                   = filter (\<lambda>p. point_page_content p \<in> set live) (procedural st) @ new
                 \<and> map point_page_content new = map tool_description missing"
    unfolding assms(2-5) using assms(1) by (rule embed_tools_procedural)
  show "set (map point_page_content (procedural (embed_tools clk tools st))) = set live"
    unfolding assms(2-5) using assms(1) by (rule embed_tools_descriptions_set)
qed

text \<open>
  The theorem at the collection with records for \<open>A\<close>, \<open>B\<close>, \<open>C\<close> and the tools
  \<open>A\<close>, \<open>C\<close>, \<open>D\<close>: one \<open>add_texts\<close> call for \<open>D\<close>, one \<open>delete\<close> call for the
  record of \<open>B\<close>, and the descriptions \<open>A\<close>, \<open>C\<close>, \<open>D\<close> afterwards.
\<close>

theorem embed_tools_reconciles_witness:
  "distinct (map point_id (procedural index_abc))
   \<and> store_calls (embed_tools real tools_acd index_abc)
       = [Get_all_points,
          Add_texts [''D''] [\<lparr>tm_source = ''tool'', tm_when = 0, tm_name = ''D'', tm_docstring = ''''\<rparr>],
          Delete ''procedural'' [2]]
   \<and> set (map point_page_content (procedural (embed_tools real tools_acd index_abc)))
       = {''A'', ''C'', ''D''}"
proof -
  have d: "distinct (map point_id (procedural index_abc))"
    by (simp add: index_abc_def point_of_def)
  have e: "map point_page_content (procedural index_abc) = [''A'', ''B'', ''C'']"
    and l: "map tool_description tools_acd = [''A'', ''C'', ''D'']"
    by (simp_all add: index_abc_def point_of_def tools_acd_def tool_of_def)
  have m: "[tool_of ''D''] = filter (\<lambda>t. tool_description t \<notin> set [''A'', ''B'', ''C'']) tools_acd"
    by (simp add: tools_acd_def tool_of_def)
  have s: "[point_of 2 ''B''] = filter (\<lambda>p. point_page_content p \<notin> set [''A'', ''C'', ''D''])
                                 (procedural index_abc)"
    by (simp add: index_abc_def point_of_def)
  from embed_tools_reconciles [OF d e [symmetric] l [symmetric] m s, of real] d show ?thesis
    by (simp add: index_abc_def point_of_def tool_of_def)
qed

end
